theory Spec2Isabelle
  imports Main "HOL-Library.Sublist"
begin

section \<open>CodeValidator: strings\<close>

text \<open>
  A \<^verbatim>\<open>std::string\<close> is a list of bytes. The three characters of the source that
  cannot be written inside a string literal here are named.
\<close>

definition bslash :: char where
  "bslash = CHR 0x5C"

definition dquote :: char where
  "dquote = CHR 0x22"

definition newline :: char where
  "newline = CHR 0x0A"

text \<open>
  \<^verbatim>\<open>hay.find(needle, pos)\<close>: the least index \<open>i \<ge> pos\<close> at which \<open>needle\<close> starts in
  \<open>hay\<close>; \<open>None\<close> is \<^verbatim>\<open>std::string::npos\<close>. \<open>find_at\<close> scans the part of the string
  that starts at index \<open>i\<close>.
\<close>

fun find_at :: "string \<Rightarrow> string \<Rightarrow> nat \<Rightarrow> nat option" where
  "find_at needle [] i = (if needle = [] then Some i else None)"
| "find_at needle (c # cs) i =
     (if prefix needle (c # cs) then Some i else find_at needle cs (Suc i))"

definition str_find :: "string \<Rightarrow> string \<Rightarrow> nat \<Rightarrow> nat option" where
  "str_find hay needle pos =
     (if length hay < pos then None else find_at needle (drop pos hay) pos)"

text \<open>\<^verbatim>\<open>hay.find(needle) != std::string::npos\<close>\<close>

definition found :: "string \<Rightarrow> string \<Rightarrow> bool" where
  "found hay needle = (str_find hay needle 0 \<noteq> None)"

text \<open>\<^verbatim>\<open>s.replace(pos, 1, t)\<close> for \<open>pos < length s\<close>.\<close>

definition replace1 :: "string \<Rightarrow> nat \<Rightarrow> string \<Rightarrow> string" where
  "replace1 s pos t = take pos s @ t @ drop (Suc pos) s"

section \<open>LanguageValidator::escapeFilePath\<close>

text \<open>
  \<^verbatim>\<open>
  size_t pos = 0;
  while ((pos = escaped.find("\\", pos)) != std::string::npos) {
      escaped.replace(pos, 1, "\\\\");
      pos += 2;
  }
  return "\"" + escaped + "\"";
  \<close>
  The loop is the recursive function \<open>escape_loop\<close> on the pair of the two variables
  that the loop body updates.
\<close>

function escape_loop :: "string \<Rightarrow> nat \<Rightarrow> string" where
  "escape_loop escaped pos =
     (case str_find escaped [bslash] pos of
        None \<Rightarrow> escaped
      | Some p \<Rightarrow> escape_loop (replace1 escaped p [bslash, bslash]) (p + 2))"
  by pat_completeness auto

lemma find_at_bounds:
  "find_at needle cs i = Some p \<Longrightarrow> needle \<noteq> [] \<Longrightarrow> i \<le> p \<and> p < i + length cs"
proof (induction cs arbitrary: i)
  case Nil
  then show ?case by simp
next
  case (Cons c cs)
  show ?case
  proof (cases "prefix needle (c # cs)")
    case True
    with Cons.prems show ?thesis by simp
  next
    case False
    with Cons.prems have "find_at needle cs (Suc i) = Some p" by simp
    from Cons.IH [OF this Cons.prems(2)] show ?thesis by simp
  qed
qed

lemma str_find_bounds:
  assumes "str_find hay needle pos = Some p" and "needle \<noteq> []"
  shows "pos \<le> p \<and> p < length hay"
proof -
  from assms(1) have le: "pos \<le> length hay" and f: "find_at needle (drop pos hay) pos = Some p"
    by (auto simp: str_find_def split: if_splits)
  from find_at_bounds [OF f assms(2)] le show ?thesis by simp
qed

termination escape_loop
proof (relation "measure (\<lambda>(escaped, pos). length escaped - pos)")
  show "wf (measure (\<lambda>(escaped, pos). length escaped - pos))" by simp
next
  fix escaped :: string and pos p :: nat
  assume "str_find escaped [bslash] pos = Some p"
  then have "pos \<le> p \<and> p < length escaped"
    by (rule str_find_bounds) simp
  then show "((replace1 escaped p [bslash, bslash], p + 2), (escaped, pos))
      \<in> measure (\<lambda>(escaped, pos). length escaped - pos)"
    by (simp add: replace1_def) arith
qed

declare escape_loop.simps [simp del]

definition escapeFilePath :: "string \<Rightarrow> string" where
  "escapeFilePath filePath = [dquote] @ escape_loop filePath 0 @ [dquote]"

text \<open>
  What the specification says of \<^verbatim>\<open>escape\<close>, character by character: a backslash
  becomes two, any other character stays.
\<close>

definition doubled :: "char \<Rightarrow> string" where
  "doubled c = (if c = bslash then [bslash, bslash] else [c])"

section \<open>Path decomposition\<close>

text \<open>
  \<^verbatim>\<open>std::filesystem::path\<close> is library code. The program is a Windows program, so the
  decomposition below follows the Windows rules of the library: both \<^verbatim>\<open>/\<close> and the
  backslash separate directories, a root name is a drive prefix or a network or device
  prefix, and the part of a file name after a colon (an alternate data stream) takes no
  part in the split into stem and extension. Paths are taken as byte strings; the
  conversions between narrow and wide strings are the identity on ASCII and are left out.
\<close>

definition is_slash :: "char \<Rightarrow> bool" where
  "is_slash c = (c = CHR ''/'' \<or> c = bslash)"

definition is_letter :: "char \<Rightarrow> bool" where
  "is_letter c = (let n = (of_char c :: nat) in (65 \<le> n \<and> n \<le> 90) \<or> (97 \<le> n \<and> n \<le> 122))"

definition root_name_len :: "string \<Rightarrow> nat" where
  "root_name_len p =
     (if length p < 2 then 0
      else if is_letter (p ! 0) \<and> p ! 1 = CHR '':'' then 2
      else if \<not> is_slash (p ! 0) then 0
      else if 4 \<le> length p \<and> is_slash (p ! 3) \<and> (length p = 4 \<or> \<not> is_slash (p ! 4))
              \<and> ((is_slash (p ! 1) \<and> (p ! 2 = CHR ''?'' \<or> p ! 2 = CHR ''.''))
                   \<or> (p ! 1 = CHR ''?'' \<and> p ! 2 = CHR ''?'')) then 3
      else if 3 \<le> length p \<and> is_slash (p ! 1) \<and> \<not> is_slash (p ! 2)
        then 3 + length (takeWhile (\<lambda>c. \<not> is_slash c) (drop 3 p))
      else 0)"

text \<open>The relative path: what follows the root name and the root directory.\<close>

definition relative_path :: "string \<Rightarrow> string" where
  "relative_path p = dropWhile is_slash (drop (root_name_len p) p)"

definition root_path :: "string \<Rightarrow> string" where
  "root_path p = take (length p - length (relative_path p)) p"

definition filename :: "string \<Rightarrow> string" where
  "filename p = rev (takeWhile (\<lambda>c. \<not> is_slash c) (rev (relative_path p)))"

text \<open>The file name without its alternate data stream.\<close>

definition filename_main :: "string \<Rightarrow> string" where
  "filename_main p = takeWhile (\<lambda>c. c \<noteq> CHR '':'') (filename p)"

text \<open>
  The index in the file name at which the extension starts: the last dot, unless it is
  the first character of the name, or the name is \<^verbatim>\<open>..\<close>, or there is no dot; then the
  extension is empty and starts at the end.
\<close>

definition extension_start :: "string \<Rightarrow> nat" where
  "extension_start f =
     (let tail = takeWhile (\<lambda>c. c \<noteq> CHR ''.'') (rev f) in
      if length tail = length f then length f
      else if f = ''..'' then length f
      else if length f - length tail - 1 = 0 then length f
      else length f - length tail - 1)"

definition extension :: "string \<Rightarrow> string" where
  "extension p = (let f = filename_main p in drop (extension_start f) f)"

definition stem :: "string \<Rightarrow> string" where
  "stem p = (let f = filename_main p in take (extension_start f) f)"

definition parent_path :: "string \<Rightarrow> string" where
  "parent_path p =
     root_path p @
     rev (dropWhile is_slash (dropWhile (\<lambda>c. \<not> is_slash c) (rev (relative_path p))))"

section \<open>The environment and the state\<close>

text \<open>
  An exception in flight: one derived from \<^verbatim>\<open>std::exception\<close>, with the text of
  \<^verbatim>\<open>what()\<close>, or any other.
\<close>

datatype exn = StdException string | OtherException

text \<open>
  What \<^verbatim>\<open>executeCommand\<close> meets when it hands a command line to \<^verbatim>\<open>_popen\<close>:
  \<^item> \<open>LaunchFailed\<close>: \<^verbatim>\<open>_popen\<close> returns a null pointer;
  \<^item> \<open>Exited chunks\<close>: the child runs and exits; \<open>chunks\<close> are the strings that the
    successive calls of \<^verbatim>\<open>fgets\<close> leave in the buffer before the end of the stream;
  \<^item> \<open>NeverExits\<close>: the child never closes its output, and the read loop never ends;
  \<^item> \<open>CaptureThrows e\<close>: the child runs, and appending its output to the result string
    throws \<open>e\<close> (\<^verbatim>\<open>std::bad_alloc\<close>, \<^verbatim>\<open>std::length_error\<close>).
\<close>

datatype pipe = LaunchFailed | Exited "string list" | NeverExits | CaptureThrows exn

text \<open>
  The operating system, over a type \<open>'w\<close> of its states: the file system query
  \<^verbatim>\<open>std::filesystem::exists\<close>, which returns or throws, and \<^verbatim>\<open>_popen\<close>, which gives the
  pipe and the state that the child process leaves behind.
\<close>

record 'w os =
  fs_exists :: "string \<Rightarrow> 'w \<Rightarrow> exn + bool"
  popen :: "string \<Rightarrow> 'w \<Rightarrow> pipe \<times> 'w"

text \<open>
  The state of the program: the global \<^verbatim>\<open>g_validationInProgress\<close>, the texts of the three
  controls, the message boxes shown, and the texts that the window procedure has received
  with \<^verbatim>\<open>WM_APP\<close>, in order. \<open>launches\<close> lists the command lines handed to \<^verbatim>\<open>_popen\<close> so
  far; the program does not read it.
\<close>

record 'w state =
  world :: 'w
  launches :: "string list"
  validationInProgress :: bool
  filePathEdit :: string
  languageCombo :: string
  resultEdit :: string
  messageBoxes :: "string list"
  delivered :: "string list"

text \<open>
  The result of running a piece of the program: it returns a value, or throws, both with
  the state reached, or it never returns.
\<close>

datatype ('a, 's) result = Done 'a 's | Thrown exn 's | Diverges

definition and_then :: "('a, 's) result \<Rightarrow> ('a \<Rightarrow> 's \<Rightarrow> ('b, 's) result) \<Rightarrow> ('b, 's) result" where
  "and_then r f = (case r of Done a s \<Rightarrow> f a s | Thrown e s \<Rightarrow> Thrown e s | Diverges \<Rightarrow> Diverges)"

section \<open>LanguageValidator::executeCommand\<close>

text \<open>
  \<^verbatim>\<open>
  while (fgets(buffer.data(), buffer.size(), pipe.get()) != nullptr) {
      result += buffer.data();
  }
  \<close>
\<close>

primrec read_all :: "string \<Rightarrow> string list \<Rightarrow> string" where
  "read_all result [] = result"
| "read_all result (chunk # chunks) = read_all (result @ chunk) chunks"

definition executeCommand :: "'w os \<Rightarrow> string \<Rightarrow> 'w state \<Rightarrow> (string, 'w state) result" where
  "executeCommand env command s =
     (case popen env command (world s) of
        (p, w) \<Rightarrow>
          (let s' = s\<lparr>world := w, launches := launches s @ [command]\<rparr> in
           case p of
             LaunchFailed \<Rightarrow> Done (''Error executing command: '' @ command) s'
           | Exited chunks \<Rightarrow> Done (read_all [] chunks) s'
           | NeverExits \<Rightarrow> Diverges
           | CaptureThrows e \<Rightarrow> Thrown e s'))"

section \<open>The four validators\<close>

datatype validator = JavaValidator | PythonValidator | PHPValidator | JavaScriptValidator

fun isCompatible :: "validator \<Rightarrow> string \<Rightarrow> bool" where
  "isCompatible JavaValidator filePath = (extension filePath = ''.java'')"
| "isCompatible PythonValidator filePath = (extension filePath = ''.py'')"
| "isCompatible PHPValidator filePath = (extension filePath = ''.php'')"
| "isCompatible JavaScriptValidator filePath = (extension filePath = ''.js'')"

definition success_banner :: string where
  "success_banner = ''Compilation successful.'' @ [newline] @ ''Execution output:'' @ [newline]"

definition run_phase :: "'w os \<Rightarrow> string \<Rightarrow> 'w state \<Rightarrow> (string, 'w state) result" where
  "run_phase env runCommand s =
     and_then (executeCommand env runCommand s) (\<lambda>runResult. Done (success_banner @ runResult))"

definition java_validate :: "'w os \<Rightarrow> string \<Rightarrow> 'w state \<Rightarrow> (string, 'w state) result" where
  "java_validate env filePath s =
     (let className = stem filePath;
          directory = parent_path filePath;
          compileCommand = ''javac '' @ escapeFilePath filePath @ '' 2>&1''
      in and_then (executeCommand env compileCommand s) (\<lambda>compileResult s1.
           if compileResult \<noteq> []
           then Done (''Compilation errors:'' @ [newline] @ compileResult) s1
           else run_phase env
                  (''cd '' @ escapeFilePath directory @ '' && java '' @ className @ '' 2>&1'') s1))"

definition python_validate :: "'w os \<Rightarrow> string \<Rightarrow> 'w state \<Rightarrow> (string, 'w state) result" where
  "python_validate env filePath s =
     (let syntaxCommand = ''python -m py_compile '' @ escapeFilePath filePath @ '' 2>&1''
      in and_then (executeCommand env syntaxCommand s) (\<lambda>syntaxResult s1.
           if syntaxResult \<noteq> [] \<and> found syntaxResult ''SyntaxError''
           then Done (''Syntax errors:'' @ [newline] @ syntaxResult) s1
           else run_phase env (''python '' @ escapeFilePath filePath @ '' 2>&1'') s1))"

definition php_validate :: "'w os \<Rightarrow> string \<Rightarrow> 'w state \<Rightarrow> (string, 'w state) result" where
  "php_validate env filePath s =
     (let syntaxCommand = ''php -l '' @ escapeFilePath filePath @ '' 2>&1''
      in and_then (executeCommand env syntaxCommand s) (\<lambda>syntaxResult s1.
           if \<not> found syntaxResult ''No syntax errors''
           then Done (''Syntax errors:'' @ [newline] @ syntaxResult) s1
           else run_phase env (''php '' @ escapeFilePath filePath @ '' 2>&1'') s1))"

definition javascript_validate :: "'w os \<Rightarrow> string \<Rightarrow> 'w state \<Rightarrow> (string, 'w state) result" where
  "javascript_validate env filePath s =
     (let checkCommand = ''node --check '' @ escapeFilePath filePath @ '' 2>&1''
      in and_then (executeCommand env checkCommand s) (\<lambda>checkResult s1.
           if checkResult \<noteq> []
           then Done (''Syntax errors:'' @ [newline] @ checkResult) s1
           else run_phase env (''node '' @ escapeFilePath filePath @ '' 2>&1'') s1))"

text \<open>The virtual call \<^verbatim>\<open>validator->validate(filePath)\<close>.\<close>

fun validate :: "'w os \<Rightarrow> validator \<Rightarrow> string \<Rightarrow> 'w state \<Rightarrow> (string, 'w state) result" where
  "validate env JavaValidator = java_validate env"
| "validate env PythonValidator = python_validate env"
| "validate env PHPValidator = php_validate env"
| "validate env JavaScriptValidator = javascript_validate env"

text \<open>
  The four validators side by side: the command line of the check, the command line of
  the run, the test on the output of the check that ends the validation, and the header
  of the message it then returns. Lemma \<open>validate_by_table\<close> below shows that
  \<open>validate\<close> is what these describe.
\<close>

fun check_command :: "validator \<Rightarrow> string \<Rightarrow> string" where
  "check_command JavaValidator filePath = ''javac '' @ escapeFilePath filePath @ '' 2>&1''"
| "check_command PythonValidator filePath =
     ''python -m py_compile '' @ escapeFilePath filePath @ '' 2>&1''"
| "check_command PHPValidator filePath = ''php -l '' @ escapeFilePath filePath @ '' 2>&1''"
| "check_command JavaScriptValidator filePath =
     ''node --check '' @ escapeFilePath filePath @ '' 2>&1''"

fun run_command :: "validator \<Rightarrow> string \<Rightarrow> string" where
  "run_command JavaValidator filePath =
     ''cd '' @ escapeFilePath (parent_path filePath) @ '' && java '' @ stem filePath @ '' 2>&1''"
| "run_command PythonValidator filePath = ''python '' @ escapeFilePath filePath @ '' 2>&1''"
| "run_command PHPValidator filePath = ''php '' @ escapeFilePath filePath @ '' 2>&1''"
| "run_command JavaScriptValidator filePath = ''node '' @ escapeFilePath filePath @ '' 2>&1''"

fun check_stops :: "validator \<Rightarrow> string \<Rightarrow> bool" where
  "check_stops JavaValidator out = (out \<noteq> [])"
| "check_stops PythonValidator out = (out \<noteq> [] \<and> found out ''SyntaxError'')"
| "check_stops PHPValidator out = (\<not> found out ''No syntax errors'')"
| "check_stops JavaScriptValidator out = (out \<noteq> [])"

fun error_header :: "validator \<Rightarrow> string" where
  "error_header JavaValidator = ''Compilation errors:''"
| "error_header PythonValidator = ''Syntax errors:''"
| "error_header PHPValidator = ''Syntax errors:''"
| "error_header JavaScriptValidator = ''Syntax errors:''"

section \<open>getValidator\<close>

definition getValidator :: "string \<Rightarrow> string \<Rightarrow> validator option" where
  "getValidator language filePath =
     (if language = ''Auto-detect'' then
        (let ext = extension filePath in
         if ext = ''.java'' then Some JavaValidator
         else if ext = ''.py'' then Some PythonValidator
         else if ext = ''.php'' then Some PHPValidator
         else if ext = ''.js'' then Some JavaScriptValidator
         else None)
      else if language = ''Java'' then Some JavaValidator
      else if language = ''Python'' then Some PythonValidator
      else if language = ''PHP'' then Some PHPValidator
      else if language = ''JavaScript'' then Some JavaScriptValidator
      else None)"

section \<open>validateCode: the validation thread\<close>

text \<open>
  The body of the \<^verbatim>\<open>try\<close> block of the thread that \<^verbatim>\<open>validateCode\<close> starts, for the
  file path and the language that the thread has captured.
\<close>

definition try_block :: "'w os \<Rightarrow> string \<Rightarrow> string \<Rightarrow> 'w state \<Rightarrow> (string, 'w state) result" where
  "try_block env filePath language s =
     (if filePath = [] then Done ''Please select a file to validate.'' s
      else
        (case fs_exists env filePath (world s) of
           Inl e \<Rightarrow> Thrown e s
         | Inr False \<Rightarrow> Done (''File does not exist: '' @ filePath) s
         | Inr True \<Rightarrow>
             (case getValidator language filePath of
                None \<Rightarrow> Done ''Unsupported file type or language selection.'' s
              | Some v \<Rightarrow>
                  if \<not> isCompatible v filePath
                  then Done (''Selected language doesn'' @ [CHR 0x27] @ ''t match the file extension.'') s
                  else validate env v filePath s)))"

text \<open>
  The \<^verbatim>\<open>try\<close> block with its two handlers: the text in \<^verbatim>\<open>result\<close> when the thread goes
  on to deliver it, or \<open>None\<close> when the thread never gets there.
\<close>

definition validation_result :: "'w os \<Rightarrow> string \<Rightarrow> string \<Rightarrow> 'w state \<Rightarrow> (string \<times> 'w state) option" where
  "validation_result env filePath language s =
     (case try_block env filePath language s of
        Done r s' \<Rightarrow> Some (r, s')
      | Thrown (StdException what) s' \<Rightarrow> Some (''Error occurred during validation: '' @ what, s')
      | Thrown OtherException s' \<Rightarrow> Some (''Unknown error occurred during validation.'', s')
      | Diverges \<Rightarrow> None)"

text \<open>
  The window procedure on \<^verbatim>\<open>WM_APP\<close>: the text goes to the result control. The thread
  sends the message with \<^verbatim>\<open>SendMessage\<close>, which returns when the window procedure has
  handled it.
\<close>

definition on_WM_APP :: "string \<Rightarrow> 'w state \<Rightarrow> 'w state" where
  "on_WM_APP r s = s\<lparr>resultEdit := r, delivered := delivered s @ [r]\<rparr>"

text \<open>
  The whole thread, run without interruption: the \<^verbatim>\<open>try\<close> block, the message, then
  the flag is cleared. \<open>None\<close>: the thread never ends. The conversion of the result to
  a wide string, between the handlers and the message, is taken to succeed.
\<close>

definition validationThread :: "'w os \<Rightarrow> string \<Rightarrow> string \<Rightarrow> 'w state \<Rightarrow> 'w state option" where
  "validationThread env filePath language s =
     (case validation_result env filePath language s of
        None \<Rightarrow> None
      | Some (r, s') \<Rightarrow> Some ((on_WM_APP r s')\<lparr>validationInProgress := False\<rparr>))"

section \<open>validateCode: the threads and the lock\<close>

text \<open>
  The user interface thread runs \<^verbatim>\<open>validateCode\<close> when the Validate button is pressed;
  each accepted call starts one validation thread. The threads take turns, one step at a
  time. The steps of \<^verbatim>\<open>validateCode\<close> on the user interface thread:
  \<^item> \<open>Idle\<close>: in the message loop;
  \<^item> \<open>WaitLock\<close>: in \<^verbatim>\<open>validateCode\<close>, about to take \<^verbatim>\<open>g_mutex\<close>;
  \<^item> \<open>HoldLock\<close>: holds the lock, about to test the flag;
  \<^item> \<open>MsgBox\<close>: the flag was set; the message box is open, the lock still held;
  \<^item> \<open>Accepted\<close>: the flag was clear and has been set; about to leave the locked block;
  \<^item> \<open>Starting\<close>: the lock is released; about to read the controls and start the thread.
\<close>

datatype ui_pc = Idle | WaitLock | HoldLock | MsgBox | Accepted | Starting

text \<open>
  The steps of a validation thread: about to run the \<^verbatim>\<open>try\<close> block on its captured
  file path and language; about to send the result; about to take the lock; holding
  the lock, about to clear the flag; flag cleared, about to release the lock; ended.
\<close>

datatype worker_pc =
  Running string string | Sending string | Locking | Clearing | Cleared | Finished

datatype thread_id = UI | Worker nat

record 'w sys =
  st :: "'w state"
  ui :: ui_pc
  workers :: "worker_pc list"
  mutex :: "thread_id option"

definition initial :: "'w \<Rightarrow> 'w sys" where
  "initial w =
     \<lparr>st = \<lparr>world = w, launches = [], validationInProgress = False, filePathEdit = [],
             languageCombo = ''Auto-detect'', resultEdit = [], messageBoxes = [], delivered = []\<rparr>,
      ui = Idle, workers = [], mutex = None\<rparr>"

text \<open>
  The steps of the user interface thread. The user edits the two controls between
  calls; \<^verbatim>\<open>GetWindowText\<close> copies at most the size of its buffer less one (the buffers
  hold \<^verbatim>\<open>MAX_PATH\<close>, that is 260, and 32 characters). The texts are taken to be ASCII, so
  that the conversion to UTF-8 changes nothing.
\<close>

inductive ui_step :: "'w sys \<Rightarrow> 'w sys \<Rightarrow> bool" where
  edit: "ui s = Idle \<Longrightarrow>
     ui_step s (s\<lparr>st := (st s)\<lparr>filePathEdit := p, languageCombo := l\<rparr>\<rparr>)"
| click: "ui s = Idle \<Longrightarrow> ui_step s (s\<lparr>ui := WaitLock\<rparr>)"
| lock: "ui s = WaitLock \<Longrightarrow> mutex s = None \<Longrightarrow>
     ui_step s (s\<lparr>ui := HoldLock, mutex := Some UI\<rparr>)"
| reject: "ui s = HoldLock \<Longrightarrow> validationInProgress (st s) \<Longrightarrow>
     ui_step s (s\<lparr>ui := MsgBox,
       st := (st s)\<lparr>messageBoxes := messageBoxes (st s) @ [''Validation already in progress'']\<rparr>\<rparr>)"
| dismiss: "ui s = MsgBox \<Longrightarrow> ui_step s (s\<lparr>ui := Idle, mutex := None\<rparr>)"
| accept: "ui s = HoldLock \<Longrightarrow> \<not> validationInProgress (st s) \<Longrightarrow>
     ui_step s (s\<lparr>ui := Accepted, st := (st s)\<lparr>validationInProgress := True\<rparr>\<rparr>)"
| unlock: "ui s = Accepted \<Longrightarrow> ui_step s (s\<lparr>ui := Starting, mutex := None\<rparr>)"
| start: "ui s = Starting \<Longrightarrow>
     ui_step s (s\<lparr>ui := Idle,
       st := (st s)\<lparr>resultEdit := ''Validating...''\<rparr>,
       workers := workers s @
         [Running (take 259 (filePathEdit (st s))) (take 31 (languageCombo (st s)))]\<rparr>)"

text \<open>
  The steps of validation thread \<open>i\<close>. \<^verbatim>\<open>SendMessage\<close> is served when the user
  interface thread is in a message loop: its own, or that of the message box.
\<close>

inductive worker_step :: "'w os \<Rightarrow> nat \<Rightarrow> 'w sys \<Rightarrow> 'w sys \<Rightarrow> bool" where
  run: "i < length (workers s) \<Longrightarrow> workers s ! i = Running filePath language \<Longrightarrow>
     validation_result env filePath language (st s) = Some (r, s') \<Longrightarrow>
     worker_step env i s (s\<lparr>st := s', workers := (workers s)[i := Sending r]\<rparr>)"
| send: "i < length (workers s) \<Longrightarrow> workers s ! i = Sending r \<Longrightarrow>
     ui s = Idle \<or> ui s = MsgBox \<Longrightarrow>
     worker_step env i s (s\<lparr>st := on_WM_APP r (st s), workers := (workers s)[i := Locking]\<rparr>)"
| lock: "i < length (workers s) \<Longrightarrow> workers s ! i = Locking \<Longrightarrow> mutex s = None \<Longrightarrow>
     worker_step env i s (s\<lparr>mutex := Some (Worker i), workers := (workers s)[i := Clearing]\<rparr>)"
| clear: "i < length (workers s) \<Longrightarrow> workers s ! i = Clearing \<Longrightarrow>
     worker_step env i s (s\<lparr>st := (st s)\<lparr>validationInProgress := False\<rparr>,
       workers := (workers s)[i := Cleared]\<rparr>)"
| unlock: "i < length (workers s) \<Longrightarrow> workers s ! i = Cleared \<Longrightarrow>
     worker_step env i s (s\<lparr>mutex := None, workers := (workers s)[i := Finished]\<rparr>)"

definition step :: "'w os \<Rightarrow> 'w sys \<Rightarrow> 'w sys \<Rightarrow> bool" where
  "step env s s' = (ui_step s s' \<or> (\<exists>i. worker_step env i s s'))"

inductive reachable :: "'w os \<Rightarrow> 'w \<Rightarrow> 'w sys \<Rightarrow> bool" for env :: "'w os" and w :: 'w where
  init: "reachable env w (initial w)"
| after: "reachable env w s \<Longrightarrow> step env s s' \<Longrightarrow> reachable env w s'"

text \<open>A request is being processed from the moment the flag is set for it until the flag is cleared.\<close>

fun processing :: "worker_pc \<Rightarrow> bool" where
  "processing Cleared = False"
| "processing Finished = False"
| "processing _ = True"

definition in_progress :: "'w sys \<Rightarrow> nat" where
  "in_progress s =
     length (filter processing (workers s)) + (if ui s = Accepted \<or> ui s = Starting then 1 else 0)"

section \<open>Invariants of the threads\<close>

text \<open>
  A validation thread holds the lock from the moment it has taken it until it releases
  it; the user interface thread holds it in the locked block of \<^verbatim>\<open>validateCode\<close>.
\<close>

fun holds_lock :: "worker_pc \<Rightarrow> bool" where
  "holds_lock Clearing = True"
| "holds_lock Cleared = True"
| "holds_lock _ = False"

definition ui_holds :: "ui_pc \<Rightarrow> bool" where
  "ui_holds pc = (pc = HoldLock \<or> pc = MsgBox \<or> pc = Accepted)"

text \<open>Who is at a step inside a locked block is the owner of the lock.\<close>

definition lock_inv :: "'w sys \<Rightarrow> bool" where
  "lock_inv s =
     ((ui_holds (ui s) \<longrightarrow> mutex s = Some UI)
      \<and> (\<forall>i < length (workers s). holds_lock (workers s ! i) \<longrightarrow> mutex s = Some (Worker i)))"

text \<open>The flag is set exactly when one request is being processed, and then only one.\<close>

definition flag_inv :: "'w sys \<Rightarrow> bool" where
  "flag_inv s = (in_progress s = (if validationInProgress (st s) then 1 else 0))"

section \<open>What running commands leaves unchanged\<close>

text \<open>
  Running commands changes the environment and the list of launches, and nothing else of
  the state of the program.
\<close>

definition only_os :: "'w state \<Rightarrow> 'w state \<Rightarrow> bool" where
  "only_os s s' =
     (validationInProgress s' = validationInProgress s \<and> filePathEdit s' = filePathEdit s
      \<and> languageCombo s' = languageCombo s \<and> resultEdit s' = resultEdit s
      \<and> messageBoxes s' = messageBoxes s \<and> delivered s' = delivered s)"

definition framed :: "('a, 'w state) result \<Rightarrow> 'w state \<Rightarrow> bool" where
  "framed r s = (case r of Done a s' \<Rightarrow> only_os s s' | Thrown e s' \<Rightarrow> only_os s s' | Diverges \<Rightarrow> True)"

section \<open>Environments for the examples\<close>

text \<open>
  An operating system whose state is the list of the pipes that the coming launches will
  meet, in order (when the list is used up, launches fail), and in which exactly the
  listed files exist.
\<close>

definition script_os :: "string list \<Rightarrow> (pipe list) os" where
  "script_os files =
     \<lparr>fs_exists = (\<lambda>p w. Inr (p \<in> set files)),
      popen = (\<lambda>c w. case w of [] \<Rightarrow> (LaunchFailed, []) | p # ps \<Rightarrow> (p, ps))\<rparr>"

text \<open>
  An operating system without state in which the listed files exist and every launch
  meets the same pipe.
\<close>

definition const_os :: "string list \<Rightarrow> pipe \<Rightarrow> unit os" where
  "const_os files p = \<lparr>fs_exists = (\<lambda>f w. Inr (f \<in> set files)), popen = (\<lambda>c w. (p, w))\<rparr>"

text \<open>
  The state after the user has entered \<^verbatim>\<open>x.py\<close> and \<^verbatim>\<open>Python\<close>, pressed Validate, and
  pressed Validate again while the thread of the first request has not yet run: the
  second call of \<^verbatim>\<open>validateCode\<close> holds the lock and is about to test the flag.
\<close>

definition second_click :: "unit sys" where
  "second_click =
     \<lparr>st = \<lparr>world = (), launches = [], validationInProgress = True, filePathEdit = ''x.py'',
             languageCombo = ''Python'', resultEdit = ''Validating...'', messageBoxes = [],
             delivered = []\<rparr>,
      ui = HoldLock, workers = [Running ''x.py'' ''Python''], mutex = Some UI\<rparr>"

definition bad_py_output :: "string list" where
  "bad_py_output =
     [''  File bad.py, line 1'' @ [newline], ''SyntaxError: invalid syntax'' @ [newline]]"

section \<open>Properties of the string functions\<close>

lemma find_at_char_None: "find_at [b] cs i = None \<Longrightarrow> b \<notin> set cs"
  by (induction cs arbitrary: i) (auto split: if_splits)

lemma find_at_char_Some:
  "find_at [b] cs i = Some p \<Longrightarrow>
     \<exists>us vs. cs = us @ b # vs \<and> b \<notin> set us \<and> p = i + length us"
proof (induction cs arbitrary: i)
  case Nil
  then show ?case by simp
next
  case (Cons c cs)
  show ?case
  proof (cases "c = b")
    case True
    with Cons.prems have "p = i" by simp
    with True show ?thesis by (intro exI [of _ "[]"] exI [of _ cs]) simp
  next
    case False
    with Cons.prems have "find_at [b] cs (Suc i) = Some p" by simp
    from Cons.IH [OF this] obtain us vs
      where "cs = us @ b # vs" "b \<notin> set us" "p = Suc i + length us" by blast
    with False show ?thesis by (intro exI [of _ "c # us"] exI [of _ vs]) simp
  qed
qed

lemma concat_doubled_clean: "bslash \<notin> set us \<Longrightarrow> concat (map doubled us) = us"
  by (induction us) (auto simp: doubled_def)

lemma replace1_middle: "replace1 (xs @ c # ys) (length xs) t = xs @ t @ ys"
  by (simp add: replace1_def)

text \<open>
  The loop invariant: what lies before \<open>pos\<close> is final, what lies from \<open>pos\<close> on is still
  as in the input.
\<close>

lemma escape_loop_eq:
  "pos \<le> length s \<Longrightarrow> escape_loop s pos = take pos s @ concat (map doubled (drop pos s))"
proof (induction s pos rule: escape_loop.induct)
  case (1 escaped pos)
  show ?case
  proof (cases "str_find escaped [bslash] pos")
    case None
    with "1.prems" have "find_at [bslash] (drop pos escaped) pos = None"
      by (simp add: str_find_def)
    then have "bslash \<notin> set (drop pos escaped)" by (rule find_at_char_None)
    then have "concat (map doubled (drop pos escaped)) = drop pos escaped"
      by (rule concat_doubled_clean)
    with None show ?thesis by (simp add: escape_loop.simps [of escaped pos])
  next
    case (Some p)
    with "1.prems" have "find_at [bslash] (drop pos escaped) pos = Some p"
      by (simp add: str_find_def)
    from find_at_char_Some [OF this] obtain us vs
      where d: "drop pos escaped = us @ bslash # vs" and clean: "bslash \<notin> set us"
        and p: "p = pos + length us" by blast
    define pre where "pre = take pos escaped"
    have e: "escaped = (pre @ us) @ bslash # vs"
      using d by (metis append_take_drop_id append_assoc pre_def)
    have lp: "length (pre @ us) = p" using "1.prems" by (simp add: pre_def p)
    have r: "replace1 escaped p [bslash, bslash] = (pre @ us) @ [bslash, bslash] @ vs"
      unfolding lp [symmetric] by (subst e) (rule replace1_middle)
    have "p + 2 \<le> length (replace1 escaped p [bslash, bslash])"
      unfolding r using lp by simp
    from "1.IH" [OF Some this]
    have "escape_loop (replace1 escaped p [bslash, bslash]) (p + 2) =
          pre @ us @ bslash # bslash # concat (map doubled vs)"
      unfolding r using lp by simp
    moreover have "escape_loop escaped pos =
        escape_loop (replace1 escaped p [bslash, bslash]) (p + 2)"
      using Some by (simp add: escape_loop.simps [of escaped pos])
    moreover have "concat (map doubled (drop pos escaped)) =
        us @ bslash # bslash # concat (map doubled vs)"
      by (simp add: d concat_doubled_clean [OF clean] doubled_def)
    ultimately show ?thesis by (simp add: pre_def)
  qed
qed

text \<open>
  C8. For every input path, \<^verbatim>\<open>escapeFilePath\<close> returns the path with every backslash
  replaced by two backslashes, every other character as it is, and the whole wrapped in
  one leading and one trailing double quote. The function is total: it returns for every
  input, and has no error result.
\<close>

theorem escapeFilePath_doubles_and_quotes:
  "escapeFilePath filePath = [dquote] @ concat (map doubled filePath) @ [dquote]"
  by (simp add: escapeFilePath_def escape_loop_eq)

theorem escapeFilePath_doubles_and_quotes_witness:
  "escapeFilePath (''C:'' @ [bslash] @ ''a.py'') =
     [dquote] @ ''C:'' @ [bslash, bslash] @ ''a.py'' @ [dquote]"
  using escapeFilePath_doubles_and_quotes [of "''C:'' @ [bslash] @ ''a.py''"]
  by (simp add: doubled_def bslash_def)

text \<open>
  C10. For every path that contains no backslash, \<^verbatim>\<open>escapeFilePath\<close> returns exactly the
  input between one leading and one trailing double quote. Double quotes and other
  characters with a meaning for the shell that occur in the path are passed through
  as they are.
\<close>

theorem escapeFilePath_without_backslash:
  "bslash \<notin> set filePath \<Longrightarrow> escapeFilePath filePath = [dquote] @ filePath @ [dquote]"
  by (simp add: escapeFilePath_def escape_loop_eq concat_doubled_clean)

theorem escapeFilePath_without_backslash_witness:
  "bslash \<notin> set (''a'' @ [dquote] @ '' & del x.py'') \<and>
   escapeFilePath (''a'' @ [dquote] @ '' & del x.py'') =
     [dquote] @ ''a'' @ [dquote] @ '' & del x.py'' @ [dquote]"
proof -
  have h: "bslash \<notin> set (''a'' @ [dquote] @ '' & del x.py'')"
    by (simp add: bslash_def dquote_def)
  from h escapeFilePath_without_backslash [OF h] show ?thesis by simp
qed

section \<open>Properties of the validators\<close>

lemma find_at_sublist: "find_at needle cs i \<noteq> None \<longleftrightarrow> sublist needle cs"
  by (induction cs arbitrary: i) (auto simp: sublist_Cons_right)

text \<open>\<open>found\<close> is containment: the needle occurs in the string as a contiguous part.\<close>

lemma found_iff_sublist: "found hay needle \<longleftrightarrow> sublist needle hay"
  using find_at_sublist [of needle hay 0] by (simp add: found_def str_find_def)

lemma and_then_Done: "and_then (Done a s) f = f a s"
  by (simp add: and_then_def)

lemma run_phase_Done:
  "run_phase env c s = Done msg s' \<longleftrightarrow>
     (\<exists>runResult. executeCommand env c s = Done runResult s' \<and> msg = success_banner @ runResult)"
  by (auto simp: run_phase_def and_then_def split: result.splits)

lemma executeCommand_script:
  "executeCommand (script_os files) c s =
     (case world s of
        [] \<Rightarrow> Done (''Error executing command: '' @ c) (s\<lparr>world := [], launches := launches s @ [c]\<rparr>)
      | p # ps \<Rightarrow>
          (case p of
             LaunchFailed \<Rightarrow> Done (''Error executing command: '' @ c) (s\<lparr>world := ps, launches := launches s @ [c]\<rparr>)
           | Exited chunks \<Rightarrow> Done (read_all [] chunks) (s\<lparr>world := ps, launches := launches s @ [c]\<rparr>)
           | NeverExits \<Rightarrow> Diverges
           | CaptureThrows e \<Rightarrow> Thrown e (s\<lparr>world := ps, launches := launches s @ [c]\<rparr>)))"
  by (simp add: executeCommand_def script_os_def split: list.splits pipe.splits)

text \<open>
  C6. For the Python validator, when the check command returns the output \<open>out\<close>:
  \<^verbatim>\<open>validate\<close> ends with a message that starts with \<^verbatim>\<open>Syntax errors:\<close> if and only if
  \<open>out\<close> is not empty and contains \<^verbatim>\<open>SyntaxError\<close>; the message is then that header, a
  line break and \<open>out\<close>, and the run command is not started. For any other output, empty
  or not, \<^verbatim>\<open>validate\<close> goes on to the run phase: it launches the run command, and when
  that returns the output \<open>runResult\<close>, \<^verbatim>\<open>validate\<close> returns \<^verbatim>\<open>Compilation successful.\<close>, a
  line break, \<^verbatim>\<open>Execution output:\<close>, a line break and \<open>runResult\<close>; when the run command
  throws or never exits, so does \<^verbatim>\<open>validate\<close>.
\<close>

theorem python_check_phase:
  assumes "executeCommand env (''python -m py_compile '' @ escapeFilePath filePath @ '' 2>&1'') s
             = Done out s1"
  shows "((\<exists>msg s'. python_validate env filePath s = Done msg s' \<and> prefix ''Syntax errors:'' msg)
            \<longleftrightarrow> out \<noteq> [] \<and> sublist ''SyntaxError'' out)
       \<and> (out \<noteq> [] \<and> sublist ''SyntaxError'' out \<longrightarrow>
            python_validate env filePath s = Done (''Syntax errors:'' @ [newline] @ out) s1)
       \<and> (\<not> (out \<noteq> [] \<and> sublist ''SyntaxError'' out) \<longrightarrow>
            python_validate env filePath s
              = run_phase env (''python '' @ escapeFilePath filePath @ '' 2>&1'') s1
            \<and> (\<forall>msg s'. python_validate env filePath s = Done msg s' \<longrightarrow>
                  prefix ''Compilation successful.'' msg)
            \<and> (\<forall>runResult s2.
                  executeCommand env (''python '' @ escapeFilePath filePath @ '' 2>&1'') s1
                    = Done runResult s2 \<longrightarrow>
                  python_validate env filePath s
                    = Done (''Compilation successful.'' @ [newline] @ ''Execution output:''
                              @ [newline] @ runResult) s2)
            \<and> (\<forall>e s2.
                  executeCommand env (''python '' @ escapeFilePath filePath @ '' 2>&1'') s1
                    = Thrown e s2 \<longrightarrow>
                  python_validate env filePath s = Thrown e s2)
            \<and> (executeCommand env (''python '' @ escapeFilePath filePath @ '' 2>&1'') s1 = Diverges
                  \<longrightarrow> python_validate env filePath s = Diverges))"
proof -
  let ?run = "''python '' @ escapeFilePath filePath @ '' 2>&1''"
  have v: "python_validate env filePath s =
      (if out \<noteq> [] \<and> sublist ''SyntaxError'' out
       then Done (''Syntax errors:'' @ [newline] @ out) s1 else run_phase env ?run s1)"
    using assms by (simp add: python_validate_def and_then_Done found_iff_sublist)
  have p: "\<not> prefix ''Syntax errors:'' (success_banner @ r)" for r
    by (simp add: success_banner_def)
  have q: "prefix ''Compilation successful.'' (success_banner @ r)" for r
    by (simp add: success_banner_def)
  have d: "run_phase env ?run s1
      = Done (''Compilation successful.'' @ [newline] @ ''Execution output:'' @ [newline]
                @ runResult) s2"
    if "executeCommand env ?run s1 = Done runResult s2" for runResult s2
    using that by (simp add: run_phase_def and_then_Done success_banner_def)
  have t: "run_phase env ?run s1 = Thrown e s2"
    if "executeCommand env ?run s1 = Thrown e s2" for e s2
    using that by (simp add: run_phase_def and_then_def)
  have n: "run_phase env ?run s1 = Diverges" if "executeCommand env ?run s1 = Diverges"
    using that by (simp add: run_phase_def and_then_def)
  show ?thesis
    using p q d t n by (auto simp: v run_phase_Done)
qed

theorem python_check_phase_witness:
  "python_validate (script_os [''bad.py'']) ''bad.py'' (st (initial [Exited bad_py_output]))
     = Done (''Syntax errors:'' @ [newline] @ ''  File bad.py, line 1'' @ [newline]
               @ ''SyntaxError: invalid syntax'' @ [newline])
         ((st (initial [Exited bad_py_output]))
            \<lparr>world := [],
             launches := [''python -m py_compile '' @ escapeFilePath ''bad.py'' @ '' 2>&1'']\<rparr>)
   \<and> python_validate (script_os [''hello.py'']) ''hello.py''
         (st (initial [Exited [''warning: deprecated'' @ [newline]], Exited [''hi'' @ [newline]]]))
     = Done (''Compilation successful.'' @ [newline] @ ''Execution output:'' @ [newline]
               @ ''hi'' @ [newline])
         ((st (initial [Exited [''warning: deprecated'' @ [newline]], Exited [''hi'' @ [newline]]]))
            \<lparr>world := [],
             launches := [''python -m py_compile '' @ escapeFilePath ''hello.py'' @ '' 2>&1'',
                          ''python '' @ escapeFilePath ''hello.py'' @ '' 2>&1'']\<rparr>)"
proof
  let ?out = "''  File bad.py, line 1'' @ [newline] @ ''SyntaxError: invalid syntax'' @ [newline]"
  have h: "executeCommand (script_os [''bad.py''])
        (''python -m py_compile '' @ escapeFilePath ''bad.py'' @ '' 2>&1'')
        (st (initial [Exited bad_py_output]))
      = Done ?out ((st (initial [Exited bad_py_output]))
            \<lparr>world := [],
             launches := [''python -m py_compile '' @ escapeFilePath ''bad.py'' @ '' 2>&1'']\<rparr>)"
    by (simp add: executeCommand_def script_os_def initial_def bad_py_output_def)
  have m: "?out \<noteq> [] \<and> sublist ''SyntaxError'' ?out"
    by (simp add: sublist_Cons_right)
  from python_check_phase [OF h] m
  show "python_validate (script_os [''bad.py'']) ''bad.py'' (st (initial [Exited bad_py_output]))
     = Done (''Syntax errors:'' @ [newline] @ ''  File bad.py, line 1'' @ [newline]
               @ ''SyntaxError: invalid syntax'' @ [newline])
         ((st (initial [Exited bad_py_output]))
            \<lparr>world := [],
             launches := [''python -m py_compile '' @ escapeFilePath ''bad.py'' @ '' 2>&1'']\<rparr>)"
    by blast
next
  let ?env = "script_os [''hello.py'']"
  let ?s = "st (initial [Exited [''warning: deprecated'' @ [newline]], Exited [''hi'' @ [newline]]])"
  let ?out = "''warning: deprecated'' @ [newline]"
  let ?s1 = "?s\<lparr>world := [Exited [''hi'' @ [newline]]],
                launches := [''python -m py_compile '' @ escapeFilePath ''hello.py'' @ '' 2>&1'']\<rparr>"
  let ?s2 = "?s\<lparr>world := [],
                launches := [''python -m py_compile '' @ escapeFilePath ''hello.py'' @ '' 2>&1'',
                             ''python '' @ escapeFilePath ''hello.py'' @ '' 2>&1'']\<rparr>"
  have h: "executeCommand ?env (''python -m py_compile '' @ escapeFilePath ''hello.py'' @ '' 2>&1'') ?s
      = Done ?out ?s1"
    by (simp add: executeCommand_script initial_def)
  have r: "executeCommand ?env (''python '' @ escapeFilePath ''hello.py'' @ '' 2>&1'') ?s1
      = Done (''hi'' @ [newline]) ?s2"
    by (simp add: executeCommand_script initial_def)
  have m: "\<not> (?out \<noteq> [] \<and> sublist ''SyntaxError'' ?out)"
    by (simp add: sublist_Cons_right)
  show "python_validate ?env ''hello.py'' ?s
     = Done (''Compilation successful.'' @ [newline] @ ''Execution output:'' @ [newline]
               @ ''hi'' @ [newline]) ?s2"
    by (rule python_check_phase [OF h, THEN conjunct2, THEN conjunct2, THEN mp, OF m,
          THEN conjunct2, THEN conjunct2, THEN conjunct1, rule_format, OF r])
qed

text \<open>
  C7. When the check command returns the output \<open>out\<close>: the Java validator ends with a
  message under the header \<^verbatim>\<open>Compilation errors:\<close>, and the JavaScript validator with one
  under \<^verbatim>\<open>Syntax errors:\<close>, exactly when \<open>out\<close> is not empty; the PHP validator ends with
  one under \<^verbatim>\<open>Syntax errors:\<close> exactly when \<open>out\<close> does not contain
  \<^verbatim>\<open>No syntax errors\<close>. Otherwise each goes on to its run command, and when that
  returns, the message is \<^verbatim>\<open>Compilation successful.\<close>, a line break,
  \<^verbatim>\<open>Execution output:\<close>, a line break, and the output of the run.
\<close>

theorem other_check_phases:
  "(executeCommand env (''javac '' @ escapeFilePath filePath @ '' 2>&1'') s = Done out s1 \<longrightarrow>
      ((\<exists>msg s'. java_validate env filePath s = Done msg s' \<and> prefix ''Compilation errors:'' msg)
         \<longleftrightarrow> out \<noteq> [])
      \<and> (out \<noteq> [] \<longrightarrow>
            java_validate env filePath s = Done (''Compilation errors:'' @ [newline] @ out) s1)
      \<and> (out = [] \<longrightarrow>
            java_validate env filePath s
              = run_phase env (''cd '' @ escapeFilePath (parent_path filePath) @ '' && java ''
                                 @ stem filePath @ '' 2>&1'') s1))
   \<and> (executeCommand env (''node --check '' @ escapeFilePath filePath @ '' 2>&1'') s = Done out s1 \<longrightarrow>
      ((\<exists>msg s'. javascript_validate env filePath s = Done msg s' \<and> prefix ''Syntax errors:'' msg)
         \<longleftrightarrow> out \<noteq> [])
      \<and> (out \<noteq> [] \<longrightarrow>
            javascript_validate env filePath s = Done (''Syntax errors:'' @ [newline] @ out) s1)
      \<and> (out = [] \<longrightarrow>
            javascript_validate env filePath s
              = run_phase env (''node '' @ escapeFilePath filePath @ '' 2>&1'') s1))
   \<and> (executeCommand env (''php -l '' @ escapeFilePath filePath @ '' 2>&1'') s = Done out s1 \<longrightarrow>
      ((\<exists>msg s'. php_validate env filePath s = Done msg s' \<and> prefix ''Syntax errors:'' msg)
         \<longleftrightarrow> \<not> sublist ''No syntax errors'' out)
      \<and> (\<not> sublist ''No syntax errors'' out \<longrightarrow>
            php_validate env filePath s = Done (''Syntax errors:'' @ [newline] @ out) s1)
      \<and> (sublist ''No syntax errors'' out \<longrightarrow>
            php_validate env filePath s
              = run_phase env (''php '' @ escapeFilePath filePath @ '' 2>&1'') s1))
   \<and> (\<forall>runCommand runResult s2. executeCommand env runCommand s1 = Done runResult s2 \<longrightarrow>
        run_phase env runCommand s1
          = Done (''Compilation successful.'' @ [newline] @ ''Execution output:'' @ [newline]
                    @ runResult) s2)"
proof (intro conjI impI allI)
  show "run_phase env runCommand s1
      = Done (''Compilation successful.'' @ [newline] @ ''Execution output:'' @ [newline]
                @ runResult) s2"
    if "executeCommand env runCommand s1 = Done runResult s2" for runCommand runResult s2
    using that by (simp add: run_phase_def and_then_Done success_banner_def)
qed (auto simp: java_validate_def javascript_validate_def php_validate_def and_then_Done
      found_iff_sublist run_phase_Done success_banner_def)

theorem other_check_phases_witness:
  "java_validate (script_os [''A.java'']) ''A.java''
       (st (initial [Exited [''A.java:1: error: class, interface, or enum expected'' @ [newline]]]))
     = Done (''Compilation errors:'' @ [newline]
               @ ''A.java:1: error: class, interface, or enum expected'' @ [newline])
         ((st (initial [Exited [''A.java:1: error: class, interface, or enum expected'' @ [newline]]]))
            \<lparr>world := [], launches := [''javac '' @ escapeFilePath ''A.java'' @ '' 2>&1'']\<rparr>)
   \<and> javascript_validate (script_os [''a.js'']) ''a.js''
       (st (initial [Exited [], Exited [''hi'' @ [newline]]]))
     = Done (''Compilation successful.'' @ [newline] @ ''Execution output:'' @ [newline]
               @ ''hi'' @ [newline])
         ((st (initial [Exited [], Exited [''hi'' @ [newline]]]))
            \<lparr>world := [],
             launches := [''node --check '' @ escapeFilePath ''a.js'' @ '' 2>&1'',
                          ''node '' @ escapeFilePath ''a.js'' @ '' 2>&1'']\<rparr>)
   \<and> php_validate (script_os [''a.php'']) ''a.php''
       (st (initial [Exited [''PHP Parse error: syntax error in a.php on line 2'' @ [newline]]]))
     = Done (''Syntax errors:'' @ [newline]
               @ ''PHP Parse error: syntax error in a.php on line 2'' @ [newline])
         ((st (initial [Exited [''PHP Parse error: syntax error in a.php on line 2'' @ [newline]]]))
            \<lparr>world := [], launches := [''php -l '' @ escapeFilePath ''a.php'' @ '' 2>&1'']\<rparr>)"
proof (intro conjI)
  let ?env = "script_os [''A.java'']"
  let ?s = "st (initial [Exited [''A.java:1: error: class, interface, or enum expected'' @ [newline]]])"
  let ?out = "''A.java:1: error: class, interface, or enum expected'' @ [newline]"
  let ?s1 = "?s\<lparr>world := [], launches := [''javac '' @ escapeFilePath ''A.java'' @ '' 2>&1'']\<rparr>"
  have h: "executeCommand ?env (''javac '' @ escapeFilePath ''A.java'' @ '' 2>&1'') ?s = Done ?out ?s1"
    by (simp add: executeCommand_script initial_def)
  have "?out \<noteq> []" by simp
  with other_check_phases [of ?env "''A.java''" ?s ?out ?s1] h
  show "java_validate ?env ''A.java'' ?s = Done (''Compilation errors:'' @ [newline] @ ?out) ?s1"
    by blast
next
  let ?env = "script_os [''a.js'']"
  let ?s = "st (initial [Exited [], Exited [''hi'' @ [newline]]])"
  let ?s1 = "?s\<lparr>world := [Exited [''hi'' @ [newline]]],
                launches := [''node --check '' @ escapeFilePath ''a.js'' @ '' 2>&1'']\<rparr>"
  let ?s2 = "?s\<lparr>world := [],
                launches := [''node --check '' @ escapeFilePath ''a.js'' @ '' 2>&1'',
                             ''node '' @ escapeFilePath ''a.js'' @ '' 2>&1'']\<rparr>"
  have h: "executeCommand ?env (''node --check '' @ escapeFilePath ''a.js'' @ '' 2>&1'') ?s = Done [] ?s1"
    by (simp add: executeCommand_script initial_def)
  have r: "executeCommand ?env (''node '' @ escapeFilePath ''a.js'' @ '' 2>&1'') ?s1
             = Done (''hi'' @ [newline]) ?s2"
    by (simp add: executeCommand_script initial_def)
  from other_check_phases [of ?env "''a.js''" ?s "[]" ?s1] h r
  show "javascript_validate ?env ''a.js'' ?s
      = Done (''Compilation successful.'' @ [newline] @ ''Execution output:'' @ [newline]
                @ ''hi'' @ [newline]) ?s2"
    by simp
next
  let ?env = "script_os [''a.php'']"
  let ?s = "st (initial [Exited [''PHP Parse error: syntax error in a.php on line 2'' @ [newline]]])"
  let ?out = "''PHP Parse error: syntax error in a.php on line 2'' @ [newline]"
  let ?s1 = "?s\<lparr>world := [], launches := [''php -l '' @ escapeFilePath ''a.php'' @ '' 2>&1'']\<rparr>"
  have h: "executeCommand ?env (''php -l '' @ escapeFilePath ''a.php'' @ '' 2>&1'') ?s = Done ?out ?s1"
    by (simp add: executeCommand_script initial_def)
  have "\<not> sublist ''No syntax errors'' ?out" by (simp add: sublist_Cons_right)
  with other_check_phases [of ?env "''a.php''" ?s ?out ?s1] h
  show "php_validate ?env ''a.php'' ?s = Done (''Syntax errors:'' @ [newline] @ ?out) ?s1"
    by blast
qed

section \<open>Properties of the selection\<close>

lemma extension_x_py: "extension ''x.py'' = ''.py''"
  by code_simp

lemma extension_x_xyz: "extension ''x.xyz'' = ''.xyz''"
  by code_simp

text \<open>
  C4, as the specification states it: selection with the language tag \<^verbatim>\<open>auto\<close> returns
  the Python validator for \<^verbatim>\<open>x.py\<close>. The program compares the tag with \<^verbatim>\<open>Auto-detect\<close>,
  the text of the first entry of the language control; \<^verbatim>\<open>auto\<close> is none of the five tags
  it knows, and selects no validator.
\<close>

theorem auto_tag_counterexample: "getValidator ''auto'' ''x.py'' = None"
  by (simp add: getValidator_def)

text \<open>
  C4, amended. Selection with the language tag \<^verbatim>\<open>Auto-detect\<close> maps the extension of the
  file path through the fixed table: \<^verbatim>\<open>.java\<close>, \<^verbatim>\<open>.py\<close>, \<^verbatim>\<open>.php\<close> and \<^verbatim>\<open>.js\<close> give the
  Java, Python, PHP and JavaScript validators, and every path whose extension is none of
  these four gives none.
\<close>

theorem auto_detect_selection:
  "(extension filePath = ''.java'' \<longrightarrow> getValidator ''Auto-detect'' filePath = Some JavaValidator)
   \<and> (extension filePath = ''.py'' \<longrightarrow> getValidator ''Auto-detect'' filePath = Some PythonValidator)
   \<and> (extension filePath = ''.php'' \<longrightarrow> getValidator ''Auto-detect'' filePath = Some PHPValidator)
   \<and> (extension filePath = ''.js'' \<longrightarrow> getValidator ''Auto-detect'' filePath = Some JavaScriptValidator)
   \<and> (extension filePath \<notin> {''.java'', ''.py'', ''.php'', ''.js''} \<longrightarrow>
        getValidator ''Auto-detect'' filePath = None)"
  by (simp add: getValidator_def)

theorem auto_detect_selection_witness:
  "getValidator ''Auto-detect'' ''x.py'' = Some PythonValidator
   \<and> getValidator ''Auto-detect'' ''x.xyz'' = None"
proof
  from auto_detect_selection [of "''x.py''"] extension_x_py
  show "getValidator ''Auto-detect'' ''x.py'' = Some PythonValidator" by blast
next
  have "extension ''x.xyz'' \<notin> {''.java'', ''.py'', ''.php'', ''.js''}"
    by (simp add: extension_x_xyz)
  with auto_detect_selection [of "''x.xyz''"]
  show "getValidator ''Auto-detect'' ''x.xyz'' = None" by blast
qed



section \<open>Properties of the validation thread\<close>

text \<open>
  C3. When the file path is empty, the validation thread delivers exactly the message
  \<^verbatim>\<open>Please select a file to validate.\<close>; when the path is not empty and no file exists at
  it, exactly \<^verbatim>\<open>File does not exist: \<close> followed by the path. In both cases no command is
  launched and the environment is left as it was. (The program delivers a text only; it
  has no field for a status.)
\<close>

theorem request_shape_errors:
  "(filePath = [] \<longrightarrow>
      (\<exists>s'. validationThread env filePath language s = Some s'
         \<and> delivered s' = delivered s @ [''Please select a file to validate.'']
         \<and> launches s' = launches s \<and> world s' = world s))
   \<and> (filePath \<noteq> [] \<and> fs_exists env filePath (world s) = Inr False \<longrightarrow>
      (\<exists>s'. validationThread env filePath language s = Some s'
         \<and> delivered s' = delivered s @ [''File does not exist: '' @ filePath]
         \<and> launches s' = launches s \<and> world s' = world s))"
  by (simp add: validationThread_def validation_result_def try_block_def on_WM_APP_def)

theorem request_shape_errors_witness:
  "(\<exists>s'. validationThread (script_os [''x.py'']) [] ''Python'' (st (initial [])) = Some s'
       \<and> delivered s' = [''Please select a file to validate.''] \<and> launches s' = [])
   \<and> (\<exists>s'. validationThread (script_os [''x.py'']) ''missing.py'' ''auto'' (st (initial [])) = Some s'
       \<and> delivered s' = [''File does not exist: missing.py''] \<and> launches s' = [])"
proof
  let ?env = "script_os [''x.py'']" and ?s = "st (initial ([] :: pipe list))"
  from request_shape_errors [where filePath = "[]" and env = ?env and language = "''Python''"
      and s = ?s]
  show "\<exists>s'. validationThread ?env [] ''Python'' ?s = Some s'
       \<and> delivered s' = [''Please select a file to validate.''] \<and> launches s' = []"
    by (auto simp: initial_def)
next
  let ?env = "script_os [''x.py'']" and ?s = "st (initial ([] :: pipe list))"
  have e: "fs_exists ?env ''missing.py'' (world ?s) = Inr False" by (simp add: script_os_def)
  have n: "''missing.py'' \<noteq> []" by simp
  from request_shape_errors [where filePath = "''missing.py''" and env = ?env
      and language = "''auto''" and s = ?s] e n
  show "\<exists>s'. validationThread ?env ''missing.py'' ''auto'' ?s = Some s'
       \<and> delivered s' = [''File does not exist: missing.py''] \<and> launches s' = []"
    by (auto simp: initial_def)
qed

lemma extension_A_java: "extension ''A.java'' = ''.java''"
  by code_simp

lemma fs_exists_script: "fs_exists (script_os files) p w = Inr (p \<in> set files)"
  by (simp add: script_os_def)

lemma escapeFilePath_x_py: "escapeFilePath ''x.py'' = [dquote] @ ''x.py'' @ [dquote]"
  by (simp add: escapeFilePath_def escape_loop_eq doubled_def bslash_def)

lemma executeCommand_returns:
  "fst (popen env c (world s)) \<noteq> NeverExits \<Longrightarrow> executeCommand env c s \<noteq> Diverges"
  by (auto simp: executeCommand_def Let_def split: prod.splits pipe.splits)

lemma and_then_returns:
  "r \<noteq> Diverges \<Longrightarrow> (\<And>a s. r = Done a s \<Longrightarrow> f a s \<noteq> Diverges) \<Longrightarrow> and_then r f \<noteq> Diverges"
  by (cases r) (simp_all add: and_then_def)

lemma run_phase_returns:
  "\<forall>c w. fst (popen env c w) \<noteq> NeverExits \<Longrightarrow> run_phase env c s \<noteq> Diverges"
  unfolding run_phase_def by (rule and_then_returns) (simp_all add: executeCommand_returns)

lemma validate_returns:
  assumes "\<forall>c w. fst (popen env c w) \<noteq> NeverExits"
  shows "validate env v filePath s \<noteq> Diverges"
proof (cases v)
  case JavaValidator
  show ?thesis
    unfolding JavaValidator validate.simps java_validate_def Let_def
    by (rule and_then_returns) (simp_all add: executeCommand_returns run_phase_returns assms)
next
  case PythonValidator
  show ?thesis
    unfolding PythonValidator validate.simps python_validate_def Let_def
    by (rule and_then_returns) (simp_all add: executeCommand_returns run_phase_returns assms)
next
  case PHPValidator
  show ?thesis
    unfolding PHPValidator validate.simps php_validate_def Let_def
    by (rule and_then_returns) (simp_all add: executeCommand_returns run_phase_returns assms)
next
  case JavaScriptValidator
  show ?thesis
    unfolding JavaScriptValidator validate.simps javascript_validate_def Let_def
    by (rule and_then_returns) (simp_all add: executeCommand_returns run_phase_returns assms)
qed

lemma try_block_returns:
  assumes "\<forall>c w. fst (popen env c w) \<noteq> NeverExits"
  shows "try_block env filePath language s \<noteq> Diverges"
  using validate_returns [OF assms]
  by (simp add: try_block_def split: sum.splits bool.splits option.splits)

lemma only_os_refl: "only_os s s"
  by (simp add: only_os_def)

lemma only_os_trans: "only_os s s1 \<Longrightarrow> only_os s1 s2 \<Longrightarrow> only_os s s2"
  by (auto simp: only_os_def)

lemma framed_trans: "only_os s s1 \<Longrightarrow> framed r s1 \<Longrightarrow> framed r s"
  by (cases r) (auto simp: framed_def intro: only_os_trans)

lemma executeCommand_framed: "framed (executeCommand env c s) s"
  by (auto simp: executeCommand_def framed_def only_os_def Let_def split: prod.splits pipe.splits)

lemma and_then_framed:
  "framed r s \<Longrightarrow> (\<And>a s1. framed (f a s1) s1) \<Longrightarrow> framed (and_then r f) s"
  by (cases r) (auto simp: and_then_def framed_def intro: framed_trans [unfolded framed_def])

lemma Done_framed: "framed (Done a s) s"
  by (simp add: framed_def only_os_refl)

lemma run_phase_framed: "framed (run_phase env c s) s"
  unfolding run_phase_def by (rule and_then_framed) (simp_all add: executeCommand_framed Done_framed)

lemma validate_framed: "framed (validate env v filePath s) s"
proof (cases v)
  case JavaValidator
  show ?thesis
    unfolding JavaValidator validate.simps java_validate_def Let_def
    by (rule and_then_framed) (simp_all add: executeCommand_framed run_phase_framed Done_framed)
next
  case PythonValidator
  show ?thesis
    unfolding PythonValidator validate.simps python_validate_def Let_def
    by (rule and_then_framed) (simp_all add: executeCommand_framed run_phase_framed Done_framed)
next
  case PHPValidator
  show ?thesis
    unfolding PHPValidator validate.simps php_validate_def Let_def
    by (rule and_then_framed) (simp_all add: executeCommand_framed run_phase_framed Done_framed)
next
  case JavaScriptValidator
  show ?thesis
    unfolding JavaScriptValidator validate.simps javascript_validate_def Let_def
    by (rule and_then_framed) (simp_all add: executeCommand_framed run_phase_framed Done_framed)
qed

lemma try_block_framed: "framed (try_block env filePath language s) s"
  using validate_framed [of env _ filePath s]
  by (auto simp: try_block_def Done_framed framed_def only_os_refl
      split: sum.splits bool.splits option.splits)

lemma validation_result_frame:
  "validation_result env filePath language s = Some (r, s1) \<Longrightarrow> only_os s s1"
  using try_block_framed [of env filePath language s]
  by (auto simp: validation_result_def framed_def split: result.splits exn.splits)

lemma validate_by_table:
  "validate env v filePath s =
     and_then (executeCommand env (check_command v filePath) s) (\<lambda>out s1.
       if check_stops v out then Done (error_header v @ [newline] @ out) s1
       else run_phase env (run_command v filePath) s1)"
proof (cases v)
  case JavaValidator
  show ?thesis unfolding JavaValidator by (simp add: java_validate_def cong del: if_weak_cong)
next
  case PythonValidator
  show ?thesis unfolding PythonValidator by (simp add: python_validate_def cong del: if_weak_cong)
next
  case PHPValidator
  show ?thesis unfolding PHPValidator by (simp add: php_validate_def cong del: if_weak_cong)
next
  case JavaScriptValidator
  show ?thesis unfolding JavaScriptValidator by (simp add: javascript_validate_def cong del: if_weak_cong)
qed

lemma executeCommand_Diverges:
  "executeCommand env c s = Diverges \<longleftrightarrow> fst (popen env c (world s)) = NeverExits"
  by (auto simp: executeCommand_def Let_def split: prod.splits pipe.splits)

lemma run_phase_Diverges:
  "run_phase env c s = Diverges \<longleftrightarrow> fst (popen env c (world s)) = NeverExits"
  by (cases "executeCommand env c s")
     (simp_all add: run_phase_def and_then_def executeCommand_Diverges [symmetric])

lemma validate_Diverges:
  "validate env v filePath s = Diverges \<longleftrightarrow>
     (fst (popen env (check_command v filePath) (world s)) = NeverExits
      \<or> (\<exists>out s1. executeCommand env (check_command v filePath) s = Done out s1
            \<and> \<not> check_stops v out
            \<and> fst (popen env (run_command v filePath) (world s1)) = NeverExits))"
  by (cases "executeCommand env (check_command v filePath) s")
     (auto simp: validate_by_table and_then_def run_phase_Diverges
        executeCommand_Diverges [symmetric])

lemma try_block_Diverges:
  "try_block env filePath language s = Diverges \<longleftrightarrow>
     (\<exists>v. filePath \<noteq> [] \<and> fs_exists env filePath (world s) = Inr True
        \<and> getValidator language filePath = Some v \<and> isCompatible v filePath
        \<and> (fst (popen env (check_command v filePath) (world s)) = NeverExits
           \<or> (\<exists>out s1. executeCommand env (check_command v filePath) s = Done out s1
                 \<and> \<not> check_stops v out
                 \<and> fst (popen env (run_command v filePath) (world s1)) = NeverExits)))"
  by (auto simp: try_block_def validate_Diverges split: sum.splits bool.splits option.splits)

lemma extension_hello_py: "extension ''hello.py'' = ''.py''"
  by code_simp

text \<open>
  C2, as the specification states it: for every accepted job exactly one outcome is
  delivered and the flag is cleared. The thread waits for the tool without a limit of
  time: when the Python interpreter never exits, the read loop of \<^verbatim>\<open>executeCommand\<close> never
  ends, nothing is delivered and the flag stays set.
\<close>

theorem hanging_tool_counterexample:
  "validationThread (script_os [''x.py'']) ''x.py'' ''Python''
     ((st (initial [NeverExits]))\<lparr>validationInProgress := True\<rparr>) = None"
  by (simp add: validationThread_def validation_result_def try_block_def getValidator_def
      extension_x_py python_validate_def executeCommand_def script_os_def initial_def and_then_def)

text \<open>
  C2, amended. For every accepted job whose commands all exit, that is, whose \<^verbatim>\<open>try\<close>
  block comes to an end, the validation thread delivers exactly one text to the window
  procedure and then clears the flag. The text is the one the \<^verbatim>\<open>try\<close> block returned, or,
  when it threw, the one the handler builds (from \<^verbatim>\<open>what()\<close> for a standard exception);
  nothing is thrown further. The \<^verbatim>\<open>try\<close> block fails to come to an end exactly when the
  job reaches \<^verbatim>\<open>validate\<close> and the check command, or the run command launched after
  it, never exits; in an environment where no command ever hangs this cannot happen.
\<close>

theorem one_outcome_then_flag_cleared:
  "(try_block env filePath language s \<noteq> Diverges \<longrightarrow>
      (\<exists>r s'. validationThread env filePath language s = Some s'
         \<and> delivered s' = delivered s @ [r] \<and> resultEdit s' = r
         \<and> \<not> validationInProgress s'
         \<and> (\<forall>text s1. try_block env filePath language s = Done text s1 \<longrightarrow> r = text)
         \<and> (\<forall>what s1. try_block env filePath language s = Thrown (StdException what) s1 \<longrightarrow>
               r = ''Error occurred during validation: '' @ what)
         \<and> (\<forall>s1. try_block env filePath language s = Thrown OtherException s1 \<longrightarrow>
               r = ''Unknown error occurred during validation.'')))
   \<and> (try_block env filePath language s = Diverges \<longleftrightarrow>
        (\<exists>v. filePath \<noteq> [] \<and> fs_exists env filePath (world s) = Inr True
           \<and> getValidator language filePath = Some v \<and> isCompatible v filePath
           \<and> (fst (popen env (check_command v filePath) (world s)) = NeverExits
              \<or> (\<exists>out s1. executeCommand env (check_command v filePath) s = Done out s1
                    \<and> \<not> check_stops v out
                    \<and> fst (popen env (run_command v filePath) (world s1)) = NeverExits))))
   \<and> ((\<forall>c w. fst (popen env c w) \<noteq> NeverExits) \<longrightarrow>
         try_block env filePath language s \<noteq> Diverges)"
proof (intro conjI impI)
  assume nd: "try_block env filePath language s \<noteq> Diverges"
  then have "\<exists>r s1. validation_result env filePath language s = Some (r, s1)"
    by (cases "try_block env filePath language s")
       (auto simp: validation_result_def split: exn.splits)
  then obtain r s1 where v: "validation_result env filePath language s = Some (r, s1)"
    by blast
  from validation_result_frame [OF v] have d: "delivered s1 = delivered s"
    by (auto simp: only_os_def)
  let ?s' = "(on_WM_APP r s1)\<lparr>validationInProgress := False\<rparr>"
  have t: "validationThread env filePath language s = Some ?s'"
    by (simp add: validationThread_def v)
  have "delivered ?s' = delivered s @ [r]" "resultEdit ?s' = r" "\<not> validationInProgress ?s'"
    by (simp_all add: on_WM_APP_def d)
  moreover have "\<forall>text s2. try_block env filePath language s = Done text s2 \<longrightarrow> r = text"
    using v by (auto simp: validation_result_def)
  moreover have "\<forall>what s2. try_block env filePath language s = Thrown (StdException what) s2 \<longrightarrow>
      r = ''Error occurred during validation: '' @ what"
    using v by (auto simp: validation_result_def)
  moreover have "\<forall>s2. try_block env filePath language s = Thrown OtherException s2 \<longrightarrow>
      r = ''Unknown error occurred during validation.''"
    using v by (auto simp: validation_result_def)
  ultimately show "\<exists>r s'. validationThread env filePath language s = Some s'
         \<and> delivered s' = delivered s @ [r] \<and> resultEdit s' = r
         \<and> \<not> validationInProgress s'
         \<and> (\<forall>text s1. try_block env filePath language s = Done text s1 \<longrightarrow> r = text)
         \<and> (\<forall>what s1. try_block env filePath language s = Thrown (StdException what) s1 \<longrightarrow>
               r = ''Error occurred during validation: '' @ what)
         \<and> (\<forall>s1. try_block env filePath language s = Thrown OtherException s1 \<longrightarrow>
               r = ''Unknown error occurred during validation.'')"
    using t by blast
next
  show "try_block env filePath language s = Diverges \<longleftrightarrow>
        (\<exists>v. filePath \<noteq> [] \<and> fs_exists env filePath (world s) = Inr True
           \<and> getValidator language filePath = Some v \<and> isCompatible v filePath
           \<and> (fst (popen env (check_command v filePath) (world s)) = NeverExits
              \<or> (\<exists>out s1. executeCommand env (check_command v filePath) s = Done out s1
                    \<and> \<not> check_stops v out
                    \<and> fst (popen env (run_command v filePath) (world s1)) = NeverExits)))"
    by (rule try_block_Diverges)
next
  assume "\<forall>c w. fst (popen env c w) \<noteq> NeverExits"
  then show "try_block env filePath language s \<noteq> Diverges" by (rule try_block_returns)
qed

theorem one_outcome_then_flag_cleared_witness:
  "(\<exists>s'. validationThread (script_os [''hello.py'']) ''hello.py'' ''Auto-detect''
            ((st (initial [Exited [], Exited [''hi'' @ [newline]]]))
               \<lparr>validationInProgress := True\<rparr>) = Some s'
      \<and> delivered s' = [''Compilation successful.'' @ [newline] @ ''Execution output:''
                          @ [newline] @ ''hi'' @ [newline]]
      \<and> \<not> validationInProgress s')
   \<and> (\<exists>s'. validationThread (const_os [''x.py''] (CaptureThrows (StdException ''bad allocation'')))
            ''x.py'' ''Python'' ((st (initial ()))\<lparr>validationInProgress := True\<rparr>) = Some s'
      \<and> delivered s' = [''Error occurred during validation: bad allocation'']
      \<and> \<not> validationInProgress s')"
proof
  let ?env = "script_os [''hello.py'']"
  let ?s = "(st (initial [Exited [], Exited [''hi'' @ [newline]]]))\<lparr>validationInProgress := True\<rparr>"
  let ?text = "''Compilation successful.'' @ [newline] @ ''Execution output:'' @ [newline]
                 @ ''hi'' @ [newline]"
  have t: "try_block ?env ''hello.py'' ''Auto-detect'' ?s
      = Done ?text
          (?s\<lparr>world := [],
               launches := [''python -m py_compile '' @ escapeFilePath ''hello.py'' @ '' 2>&1'',
                            ''python '' @ escapeFilePath ''hello.py'' @ '' 2>&1'']\<rparr>)"
    by (simp add: try_block_def fs_exists_script getValidator_def extension_hello_py
        python_validate_def executeCommand_script and_then_def initial_def run_phase_def
        success_banner_def)
  then have nd: "try_block ?env ''hello.py'' ''Auto-detect'' ?s \<noteq> Diverges" by simp
  from one_outcome_then_flag_cleared [where env = ?env and filePath = "''hello.py''"
      and language = "''Auto-detect''" and s = ?s, THEN conjunct1, THEN mp, OF nd]
  obtain r s' where
    "validationThread ?env ''hello.py'' ''Auto-detect'' ?s = Some s'"
    "delivered s' = delivered ?s @ [r]" "\<not> validationInProgress s'"
    "\<forall>text s1. try_block ?env ''hello.py'' ''Auto-detect'' ?s = Done text s1 \<longrightarrow> r = text"
    by blast
  with t show "\<exists>s'. validationThread ?env ''hello.py'' ''Auto-detect'' ?s = Some s'
      \<and> delivered s' = [?text] \<and> \<not> validationInProgress s'"
    by (auto simp: initial_def)
next
  let ?env = "const_os [''x.py''] (CaptureThrows (StdException ''bad allocation''))"
  let ?s = "(st (initial ()))\<lparr>validationInProgress := True\<rparr>"
  have t: "try_block ?env ''x.py'' ''Python'' ?s
      = Thrown (StdException ''bad allocation'')
          (?s\<lparr>launches := [''python -m py_compile '' @ escapeFilePath ''x.py'' @ '' 2>&1'']\<rparr>)"
    by (simp add: try_block_def const_os_def getValidator_def extension_x_py python_validate_def
        executeCommand_def and_then_def initial_def)
  then have nd: "try_block ?env ''x.py'' ''Python'' ?s \<noteq> Diverges" by simp
  from one_outcome_then_flag_cleared [where env = ?env and filePath = "''x.py''"
      and language = "''Python''" and s = ?s, THEN conjunct1, THEN mp, OF nd]
  obtain r s' where
    "validationThread ?env ''x.py'' ''Python'' ?s = Some s'"
    "delivered s' = delivered ?s @ [r]" "\<not> validationInProgress s'"
    "\<forall>what s1. try_block ?env ''x.py'' ''Python'' ?s = Thrown (StdException what) s1 \<longrightarrow>
       r = ''Error occurred during validation: '' @ what"
    by blast
  with t show "\<exists>s'. validationThread ?env ''x.py'' ''Python'' ?s = Some s'
      \<and> delivered s' = [''Error occurred during validation: bad allocation'']
      \<and> \<not> validationInProgress s'"
    by (auto simp: initial_def)
qed

lemma executeCommand_LaunchFailed:
  "fst (popen env c (world s)) = LaunchFailed \<Longrightarrow>
     executeCommand env c s
       = Done (''Error executing command: '' @ c)
           (s\<lparr>world := snd (popen env c (world s)), launches := launches s @ [c]\<rparr>)"
  by (auto simp: executeCommand_def Let_def split: prod.splits)

text \<open>
  C9, as the specification states it: a launch that fails gives an outcome that reports a
  system error. Here the launch of the check command of the Python validator fails; its
  error text is not empty but does not contain \<^verbatim>\<open>SyntaxError\<close>, so the validator goes on,
  the run succeeds, and the one text delivered is the success message, which says
  nothing of the failure.
\<close>

theorem launch_failure_counterexample:
  "fst (popen (script_os [''x.py''])
          (''python -m py_compile '' @ escapeFilePath ''x.py'' @ '' 2>&1'')
          [LaunchFailed, Exited [''hi'' @ [newline]]]) = LaunchFailed
   \<and> map_option delivered
        (validationThread (script_os [''x.py'']) ''x.py'' ''Python''
           (st (initial [LaunchFailed, Exited [''hi'' @ [newline]]])))
      = Some [''Compilation successful.'' @ [newline] @ ''Execution output:'' @ [newline]
                @ ''hi'' @ [newline]]"
proof
  show "fst (popen (script_os [''x.py''])
          (''python -m py_compile '' @ escapeFilePath ''x.py'' @ '' 2>&1'')
          [LaunchFailed, Exited [''hi'' @ [newline]]]) = LaunchFailed"
    by (simp add: script_os_def)
next
  have "\<not> sublist ''SyntaxError''
      (''Error executing command: python -m py_compile '' @ escapeFilePath ''x.py'' @ '' 2>&1'')"
    by (simp add: escapeFilePath_x_py sublist_Cons_right dquote_def)
  then show "map_option delivered
        (validationThread (script_os [''x.py'']) ''x.py'' ''Python''
           (st (initial [LaunchFailed, Exited [''hi'' @ [newline]]])))
      = Some [''Compilation successful.'' @ [newline] @ ''Execution output:'' @ [newline]
                @ ''hi'' @ [newline]]"
    by (simp add: validationThread_def validation_result_def try_block_def getValidator_def
        extension_x_py python_validate_def executeCommand_script fs_exists_script initial_def
        and_then_def found_iff_sublist run_phase_def success_banner_def on_WM_APP_def)
qed

text \<open>
  C9, amended. When \<^verbatim>\<open>_popen\<close> fails, \<^verbatim>\<open>executeCommand\<close> returns the text
  \<^verbatim>\<open>Error executing command: \<close> followed by the command line, and throws nothing. The
  validators take this text for the output of the tool. When every launch of a job that
  reaches \<^verbatim>\<open>validate\<close> fails, that is, the launch of the check command and, if the
  validator goes on after the error text, the launch of the run command, the thread
  delivers exactly one text and clears the flag, and the text is one of the usual headers
  of the validator followed by the error text of the last command launched.
\<close>

theorem launch_failure_is_output:
  "(fst (popen env command (world s)) = LaunchFailed \<longrightarrow>
      executeCommand env command s
        = Done (''Error executing command: '' @ command)
            (s\<lparr>world := snd (popen env command (world s)),
               launches := launches s @ [command]\<rparr>))
   \<and> (filePath \<noteq> [] \<and> fs_exists env filePath (world s) = Inr True
        \<and> getValidator language filePath = Some v \<and> isCompatible v filePath
        \<and> fst (popen env (check_command v filePath) (world s)) = LaunchFailed
        \<and> (\<not> check_stops v (''Error executing command: '' @ check_command v filePath) \<longrightarrow>
              fst (popen env (run_command v filePath)
                     (snd (popen env (check_command v filePath) (world s)))) = LaunchFailed)
        \<longrightarrow>
        (\<exists>r s' c. validationThread env filePath language s = Some s'
           \<and> delivered s' = delivered s @ [r] \<and> \<not> validationInProgress s'
           \<and> launches s' \<noteq> launches s \<and> c = last (launches s')
           \<and> launches s' =
                (if check_stops v (''Error executing command: '' @ check_command v filePath)
                 then launches s @ [check_command v filePath]
                 else launches s @ [check_command v filePath, run_command v filePath])
           \<and> (r = ''Compilation errors:'' @ [newline] @ ''Error executing command: '' @ c
              \<or> r = ''Syntax errors:'' @ [newline] @ ''Error executing command: '' @ c
              \<or> r = ''Compilation successful.'' @ [newline] @ ''Execution output:'' @ [newline]
                      @ ''Error executing command: '' @ c)))"
proof (intro conjI impI)
  assume "fst (popen env command (world s)) = LaunchFailed"
  then show "executeCommand env command s
        = Done (''Error executing command: '' @ command)
            (s\<lparr>world := snd (popen env command (world s)),
               launches := launches s @ [command]\<rparr>)"
    by (rule executeCommand_LaunchFailed)
next
  let ?c1 = "check_command v filePath" and ?c2 = "run_command v filePath"
  let ?e1 = "''Error executing command: '' @ ?c1"
  let ?s1 = "s\<lparr>world := snd (popen env ?c1 (world s)), launches := launches s @ [?c1]\<rparr>"
  assume a: "filePath \<noteq> [] \<and> fs_exists env filePath (world s) = Inr True
        \<and> getValidator language filePath = Some v \<and> isCompatible v filePath
        \<and> fst (popen env ?c1 (world s)) = LaunchFailed
        \<and> (\<not> check_stops v ?e1 \<longrightarrow>
              fst (popen env ?c2 (snd (popen env ?c1 (world s)))) = LaunchFailed)"
  then have x1: "executeCommand env ?c1 s = Done ?e1 ?s1"
    by (simp add: executeCommand_LaunchFailed)
  from a have t: "try_block env filePath language s = validate env v filePath s"
    by (simp add: try_block_def)
  have h: "error_header v = ''Compilation errors:'' \<or> error_header v = ''Syntax errors:''"
    by (cases v) simp_all
  show "\<exists>r s' c. validationThread env filePath language s = Some s'
           \<and> delivered s' = delivered s @ [r] \<and> \<not> validationInProgress s'
           \<and> launches s' \<noteq> launches s \<and> c = last (launches s')
           \<and> launches s' = (if check_stops v ?e1 then launches s @ [?c1]
                             else launches s @ [?c1, ?c2])
           \<and> (r = ''Compilation errors:'' @ [newline] @ ''Error executing command: '' @ c
              \<or> r = ''Syntax errors:'' @ [newline] @ ''Error executing command: '' @ c
              \<or> r = ''Compilation successful.'' @ [newline] @ ''Execution output:'' @ [newline]
                      @ ''Error executing command: '' @ c)"
  proof (cases "check_stops v ?e1")
    case True
    then have "try_block env filePath language s = Done (error_header v @ [newline] @ ?e1) ?s1"
      by (simp add: t validate_by_table x1 and_then_Done)
    with h True show ?thesis
      by (auto simp: validationThread_def validation_result_def on_WM_APP_def)
  next
    case False
    with a have "fst (popen env ?c2 (world ?s1)) = LaunchFailed" by simp
    from executeCommand_LaunchFailed [OF this]
    have x2: "executeCommand env ?c2 ?s1
        = Done (''Error executing command: '' @ ?c2)
            (?s1\<lparr>world := snd (popen env ?c2 (world ?s1)), launches := launches ?s1 @ [?c2]\<rparr>)" .
    from False have "try_block env filePath language s
        = Done (success_banner @ ''Error executing command: '' @ ?c2)
            (?s1\<lparr>world := snd (popen env ?c2 (world ?s1)), launches := launches ?s1 @ [?c2]\<rparr>)"
      by (simp add: t validate_by_table x1 and_then_Done run_phase_def x2)
    with False show ?thesis
      by (auto simp: validationThread_def validation_result_def on_WM_APP_def success_banner_def)
  qed
qed

theorem launch_failure_is_output_witness:
  "(\<exists>r s' c. validationThread (script_os [''A.java'']) ''A.java'' ''Java''
                (st (initial [LaunchFailed, Exited [''ran'' @ [newline]]])) = Some s'
       \<and> delivered s' = [r] \<and> \<not> validationInProgress s'
       \<and> c = last (launches s')
       \<and> launches s' = [check_command JavaValidator ''A.java'']
       \<and> (r = ''Compilation errors:'' @ [newline] @ ''Error executing command: '' @ c
          \<or> r = ''Syntax errors:'' @ [newline] @ ''Error executing command: '' @ c
          \<or> r = ''Compilation successful.'' @ [newline] @ ''Execution output:'' @ [newline]
                  @ ''Error executing command: '' @ c))
   \<and> (\<exists>r s' c. validationThread (script_os [''x.py'']) ''x.py'' ''Python''
                (st (initial [LaunchFailed, LaunchFailed])) = Some s'
       \<and> delivered s' = [r] \<and> \<not> validationInProgress s'
       \<and> c = last (launches s')
       \<and> launches s' = [check_command PythonValidator ''x.py'', run_command PythonValidator ''x.py'']
       \<and> (r = ''Compilation errors:'' @ [newline] @ ''Error executing command: '' @ c
          \<or> r = ''Syntax errors:'' @ [newline] @ ''Error executing command: '' @ c
          \<or> r = ''Compilation successful.'' @ [newline] @ ''Execution output:'' @ [newline]
                  @ ''Error executing command: '' @ c))"
proof
  let ?env = "script_os [''A.java'']"
  let ?s = "st (initial [LaunchFailed, Exited [''ran'' @ [newline]]])"
  let ?c1 = "check_command JavaValidator ''A.java''"
  have n: "''A.java'' \<noteq> []" by simp
  have e: "fs_exists ?env ''A.java'' (world ?s) = Inr True" by (simp add: fs_exists_script)
  have g: "getValidator ''Java'' ''A.java'' = Some JavaValidator" by (simp add: getValidator_def)
  have c: "isCompatible JavaValidator ''A.java''" by (simp add: extension_A_java)
  have f: "fst (popen ?env ?c1 (world ?s)) = LaunchFailed"
    by (simp add: script_os_def initial_def)
  have k: "check_stops JavaValidator (''Error executing command: '' @ ?c1)" by simp
  then have i: "\<not> check_stops JavaValidator (''Error executing command: '' @ ?c1) \<longrightarrow>
      fst (popen ?env (run_command JavaValidator ''A.java'')
             (snd (popen ?env ?c1 (world ?s)))) = LaunchFailed"
    by blast
  have "\<exists>r s' c. validationThread ?env ''A.java'' ''Java'' ?s = Some s'
           \<and> delivered s' = delivered ?s @ [r] \<and> \<not> validationInProgress s'
           \<and> launches s' \<noteq> launches ?s \<and> c = last (launches s')
           \<and> launches s' =
                (if check_stops JavaValidator (''Error executing command: '' @ ?c1)
                 then launches ?s @ [?c1]
                 else launches ?s @ [?c1, run_command JavaValidator ''A.java''])
           \<and> (r = ''Compilation errors:'' @ [newline] @ ''Error executing command: '' @ c
              \<or> r = ''Syntax errors:'' @ [newline] @ ''Error executing command: '' @ c
              \<or> r = ''Compilation successful.'' @ [newline] @ ''Execution output:'' @ [newline]
                      @ ''Error executing command: '' @ c)"
    by (rule launch_failure_is_output [where env = ?env and s = ?s and filePath = "''A.java''"
          and language = "''Java''" and v = JavaValidator, THEN conjunct2, THEN mp])
       (intro conjI n e g c f i)
  then obtain r s' c where
    "validationThread ?env ''A.java'' ''Java'' ?s = Some s'"
    "delivered s' = delivered ?s @ [r]" "\<not> validationInProgress s'" "c = last (launches s')"
    "launches s' = launches ?s @ [?c1]"
    "r = ''Compilation errors:'' @ [newline] @ ''Error executing command: '' @ c
       \<or> r = ''Syntax errors:'' @ [newline] @ ''Error executing command: '' @ c
       \<or> r = ''Compilation successful.'' @ [newline] @ ''Execution output:'' @ [newline]
               @ ''Error executing command: '' @ c"
    using k by auto
  moreover have "delivered ?s = []" "launches ?s = []" by (simp_all add: initial_def)
  ultimately show "\<exists>r s' c. validationThread ?env ''A.java'' ''Java'' ?s = Some s'
       \<and> delivered s' = [r] \<and> \<not> validationInProgress s'
       \<and> c = last (launches s')
       \<and> launches s' = [?c1]
       \<and> (r = ''Compilation errors:'' @ [newline] @ ''Error executing command: '' @ c
          \<or> r = ''Syntax errors:'' @ [newline] @ ''Error executing command: '' @ c
          \<or> r = ''Compilation successful.'' @ [newline] @ ''Execution output:'' @ [newline]
                  @ ''Error executing command: '' @ c)"
    by (intro exI [of _ r] exI [of _ s'] exI [of _ c]) simp
next
  let ?env = "script_os [''x.py'']"
  let ?s = "st (initial [LaunchFailed, LaunchFailed])"
  let ?c1 = "check_command PythonValidator ''x.py''"
  let ?c2 = "run_command PythonValidator ''x.py''"
  have n: "''x.py'' \<noteq> []" by simp
  have e: "fs_exists ?env ''x.py'' (world ?s) = Inr True" by (simp add: fs_exists_script)
  have g: "getValidator ''Python'' ''x.py'' = Some PythonValidator" by (simp add: getValidator_def)
  have c: "isCompatible PythonValidator ''x.py''" by (simp add: extension_x_py)
  have f: "fst (popen ?env ?c1 (world ?s)) = LaunchFailed"
    by (simp add: script_os_def initial_def)
  have k: "\<not> check_stops PythonValidator (''Error executing command: '' @ ?c1)"
    by (simp add: found_iff_sublist escapeFilePath_x_py sublist_Cons_right dquote_def)
  have i: "\<not> check_stops PythonValidator (''Error executing command: '' @ ?c1) \<longrightarrow>
      fst (popen ?env ?c2 (snd (popen ?env ?c1 (world ?s)))) = LaunchFailed"
    by (simp add: script_os_def initial_def)
  have "\<exists>r s' c. validationThread ?env ''x.py'' ''Python'' ?s = Some s'
           \<and> delivered s' = delivered ?s @ [r] \<and> \<not> validationInProgress s'
           \<and> launches s' \<noteq> launches ?s \<and> c = last (launches s')
           \<and> launches s' =
                (if check_stops PythonValidator (''Error executing command: '' @ ?c1)
                 then launches ?s @ [?c1]
                 else launches ?s @ [?c1, ?c2])
           \<and> (r = ''Compilation errors:'' @ [newline] @ ''Error executing command: '' @ c
              \<or> r = ''Syntax errors:'' @ [newline] @ ''Error executing command: '' @ c
              \<or> r = ''Compilation successful.'' @ [newline] @ ''Execution output:'' @ [newline]
                      @ ''Error executing command: '' @ c)"
    by (rule launch_failure_is_output [where env = ?env and s = ?s and filePath = "''x.py''"
          and language = "''Python''" and v = PythonValidator, THEN conjunct2, THEN mp])
       (intro conjI n e g c f i)
  then obtain r s' c where
    "validationThread ?env ''x.py'' ''Python'' ?s = Some s'"
    "delivered s' = delivered ?s @ [r]" "\<not> validationInProgress s'" "c = last (launches s')"
    "launches s' = launches ?s @ [?c1, ?c2]"
    "r = ''Compilation errors:'' @ [newline] @ ''Error executing command: '' @ c
       \<or> r = ''Syntax errors:'' @ [newline] @ ''Error executing command: '' @ c
       \<or> r = ''Compilation successful.'' @ [newline] @ ''Execution output:'' @ [newline]
               @ ''Error executing command: '' @ c"
    using k by auto
  moreover have "delivered ?s = []" "launches ?s = []" by (simp_all add: initial_def)
  ultimately show "\<exists>r s' c. validationThread ?env ''x.py'' ''Python'' ?s = Some s'
       \<and> delivered s' = [r] \<and> \<not> validationInProgress s'
       \<and> c = last (launches s')
       \<and> launches s' = [?c1, ?c2]
       \<and> (r = ''Compilation errors:'' @ [newline] @ ''Error executing command: '' @ c
          \<or> r = ''Syntax errors:'' @ [newline] @ ''Error executing command: '' @ c
          \<or> r = ''Compilation successful.'' @ [newline] @ ''Execution output:'' @ [newline]
                  @ ''Error executing command: '' @ c)"
    by (intro exI [of _ r] exI [of _ s'] exI [of _ c]) simp
qed

section \<open>Properties of the threads and the lock\<close>

lemma count_update:
  "i < length xs \<Longrightarrow>
     length (filter P (xs[i := y])) + (if P (xs ! i) then 1 else 0)
       = length (filter P xs) + (if P y then 1 else 0)"
proof (induction xs arbitrary: i)
  case Nil
  then show ?case by simp
next
  case (Cons x xs)
  show ?case
  proof (cases i)
    case 0
    then show ?thesis by simp
  next
    case (Suc j)
    with Cons.prems have "j < length xs" by simp
    from Cons.IH [OF this] Suc show ?thesis by simp
  qed
qed

lemma lock_inv_initial: "lock_inv (initial w)"
  by (simp add: lock_inv_def initial_def ui_holds_def)

lemma lock_inv_ui: "lock_inv s \<Longrightarrow> ui_holds (ui s) \<Longrightarrow> mutex s = Some UI"
  by (simp add: lock_inv_def)

lemma lock_inv_worker:
  "lock_inv s \<Longrightarrow> i < length (workers s) \<Longrightarrow> holds_lock (workers s ! i) \<Longrightarrow>
     mutex s = Some (Worker i)"
  by (simp add: lock_inv_def)

lemma lock_invI:
  "(ui_holds (ui s) \<Longrightarrow> mutex s = Some UI) \<Longrightarrow>
   (\<And>i. i < length (workers s) \<Longrightarrow> holds_lock (workers s ! i) \<Longrightarrow> mutex s = Some (Worker i)) \<Longrightarrow>
   lock_inv s"
  by (simp add: lock_inv_def)

lemma flag_inv_initial: "flag_inv (initial w)"
  by (simp add: flag_inv_def in_progress_def initial_def)




lemma lock_inv_ui_step:
  assumes "ui_step s s'" and inv: "lock_inv s"
  shows "lock_inv s'"
  using assms(1)
proof cases
  case (edit p l)
  with inv show ?thesis by (simp add: lock_inv_def)
next
  case click
  with inv show ?thesis by (simp add: lock_inv_def ui_holds_def)
next
  case lock
  with inv show ?thesis by (auto simp: lock_inv_def ui_holds_def)
next
  case reject
  then have "ui_holds (ui s)" by (simp add: ui_holds_def)
  from lock_inv_ui [OF inv this] lock_inv_worker [OF inv] reject
  show ?thesis by (intro lock_invI) (simp, fastforce)
next
  case dismiss
  then have "ui_holds (ui s)" by (simp add: ui_holds_def)
  from lock_inv_ui [OF inv this] lock_inv_worker [OF inv] dismiss
  show ?thesis by (intro lock_invI) (simp add: ui_holds_def, fastforce)
next
  case accept
  then have "ui_holds (ui s)" by (simp add: ui_holds_def)
  from lock_inv_ui [OF inv this] lock_inv_worker [OF inv] accept
  show ?thesis by (intro lock_invI) (simp, fastforce)
next
  case unlock
  then have "ui_holds (ui s)" by (simp add: ui_holds_def)
  from lock_inv_ui [OF inv this] lock_inv_worker [OF inv] unlock
  show ?thesis by (intro lock_invI) (simp add: ui_holds_def, fastforce)
next
  case start
  with inv show ?thesis by (auto simp: lock_inv_def ui_holds_def nth_append)
qed

lemma lock_inv_worker_step:
  assumes "worker_step env i s s'" and inv: "lock_inv s"
  shows "lock_inv s'"
  using assms(1)
proof cases
  case (run filePath language r s1)
  with inv show ?thesis by (auto simp: lock_inv_def nth_list_update)
next
  case (send r)
  with inv show ?thesis by (auto simp: lock_inv_def nth_list_update)
next
  case lock
  with inv show ?thesis by (auto simp: lock_inv_def nth_list_update)
next
  case clear
  then have m: "mutex s = Some (Worker i)"
    using lock_inv_worker [OF inv, of i] by simp
  show ?thesis
  proof (rule lock_invI)
    assume "ui_holds (ui s')"
    with clear have "ui_holds (ui s)" by simp
    from lock_inv_ui [OF inv this] m show "mutex s' = Some UI" by simp
  next
    fix j assume "j < length (workers s')" "holds_lock (workers s' ! j)"
    with clear m lock_inv_worker [OF inv, of j]
    show "mutex s' = Some (Worker j)" by (cases "j = i") simp_all
  qed
next
  case unlock
  then have m: "mutex s = Some (Worker i)"
    using lock_inv_worker [OF inv, of i] by simp
  show ?thesis
  proof (rule lock_invI)
    assume "ui_holds (ui s')"
    with unlock have "ui_holds (ui s)" by simp
    from lock_inv_ui [OF inv this] m show "mutex s' = Some UI" by simp
  next
    fix j assume "j < length (workers s')" "holds_lock (workers s' ! j)"
    with unlock m lock_inv_worker [OF inv, of j]
    show "mutex s' = Some (Worker j)" by (cases "j = i") simp_all
  qed
qed


lemma flag_inv_ui_step:
  assumes "ui_step s s'" and inv: "flag_inv s"
  shows "flag_inv s'"
  using assms(1)
proof cases
  case (edit p l)
  with inv show ?thesis by (simp add: flag_inv_def in_progress_def)
next
  case click
  with inv show ?thesis by (simp add: flag_inv_def in_progress_def)
next
  case lock
  with inv show ?thesis by (simp add: flag_inv_def in_progress_def)
next
  case reject
  with inv show ?thesis by (simp add: flag_inv_def in_progress_def)
next
  case dismiss
  with inv show ?thesis by (simp add: flag_inv_def in_progress_def)
next
  case accept
  with inv show ?thesis by (simp add: flag_inv_def in_progress_def)
next
  case unlock
  with inv show ?thesis by (simp add: flag_inv_def in_progress_def)
next
  case start
  with inv show ?thesis by (simp add: flag_inv_def in_progress_def)
qed

lemma count_same:
  "i < length xs \<Longrightarrow> P (xs ! i) = P y \<Longrightarrow> length (filter P (xs[i := y])) = length (filter P xs)"
  using count_update [of i xs P y] by (simp split: if_splits)

lemma flag_inv_worker_step:
  assumes "worker_step env i s s'" and inv: "flag_inv s"
  shows "flag_inv s'"
  using assms(1)
proof cases
  case (run filePath language r s1)
  from validation_result_frame [OF run(4)]
  have "validationInProgress s1 = validationInProgress (st s)" by (simp add: only_os_def)
  moreover from run have "length (filter processing (workers s')) = length (filter processing (workers s))"
    by (simp add: count_same)
  ultimately show ?thesis using inv run by (simp add: flag_inv_def in_progress_def)
next
  case (send r)
  then have "length (filter processing (workers s')) = length (filter processing (workers s))"
    by (simp add: count_same)
  with inv send show ?thesis by (simp add: flag_inv_def in_progress_def on_WM_APP_def)
next
  case lock
  then have "length (filter processing (workers s')) = length (filter processing (workers s))"
    by (simp add: count_same)
  with inv lock show ?thesis by (simp add: flag_inv_def in_progress_def)
next
  case clear
  from count_update [of i "workers s" processing Cleared] clear
  have "length (filter processing (workers s')) + 1 = length (filter processing (workers s))"
    by simp
  with inv clear show ?thesis by (simp add: flag_inv_def in_progress_def split: if_splits)
next
  case unlock
  then have "length (filter processing (workers s')) = length (filter processing (workers s))"
    by (simp add: count_same)
  with inv unlock show ?thesis by (simp add: flag_inv_def in_progress_def)
qed

lemma reachable_invs: "reachable env w s \<Longrightarrow> lock_inv s \<and> flag_inv s"
proof (induction rule: reachable.induct)
  case init
  show ?case by (simp add: lock_inv_initial flag_inv_initial)
next
  case (after s s')
  then show ?case
    by (auto simp: step_def intro: lock_inv_ui_step flag_inv_ui_step lock_inv_worker_step
        flag_inv_worker_step)
qed

lemma flag_change_under_lock:
  assumes "step env s s'" and inv: "lock_inv s"
    and ch: "validationInProgress (st s') \<noteq> validationInProgress (st s)"
  shows "mutex s \<noteq> None \<and> mutex s' = mutex s"
proof -
  from assms(1) consider (ui) "ui_step s s'" | (worker) i where "worker_step env i s s'"
    by (auto simp: step_def)
  then show ?thesis
  proof cases
    case ui
    then show ?thesis
    proof cases
      case accept
      then have "ui_holds (ui s)" by (simp add: ui_holds_def)
      from lock_inv_ui [OF inv this] accept show ?thesis by simp
    qed (use ch in simp_all)
  next
    case worker
    then show ?thesis
    proof cases
      case (run filePath language r s1)
      from validation_result_frame [OF run(4)] run(1) ch show ?thesis
        by (simp add: only_os_def)
    next
      case clear
      with lock_inv_worker [OF inv, of i] show ?thesis by simp
    qed (use ch in \<open>simp_all add: on_WM_APP_def\<close>)
  qed
qed

text \<open>
  C1. In every state that the threads can reach, at most one request is being
  processed, and the flag is set exactly when one is. A call of \<^verbatim>\<open>validateCode\<close> that finds
  the flag set can only show the message box and return: it starts no thread and changes
  neither the flag, nor the threads with the requests they hold, nor the environment, nor
  what has been delivered. The user interface thread tests and sets the flag, and a
  validation thread clears it, only as the owner of the lock: every step that changes the
  flag is taken while the lock is held, and leaves it held.
\<close>

theorem single_flight:
  assumes "reachable env w s"
  shows "in_progress s \<le> 1
     \<and> (validationInProgress (st s) \<longleftrightarrow> in_progress s = 1)
     \<and> (\<forall>s'. ui s = HoldLock \<and> validationInProgress (st s) \<and> ui_step s s' \<longrightarrow>
           s' = s\<lparr>ui := MsgBox,
                   st := (st s)\<lparr>messageBoxes :=
                           messageBoxes (st s) @ [''Validation already in progress'']\<rparr>\<rparr>)
     \<and> (\<forall>s'. ui s = MsgBox \<and> ui_step s s' \<longrightarrow> s' = s\<lparr>ui := Idle, mutex := None\<rparr>)
     \<and> (ui s = HoldLock \<or> ui s = MsgBox \<or> ui s = Accepted \<longrightarrow> mutex s = Some UI)
     \<and> (\<forall>i < length (workers s). workers s ! i = Clearing \<or> workers s ! i = Cleared \<longrightarrow>
           mutex s = Some (Worker i))
     \<and> (\<forall>s'. step env s s' \<and> validationInProgress (st s') \<noteq> validationInProgress (st s) \<longrightarrow>
           mutex s \<noteq> None \<and> mutex s' = mutex s)"
proof -
  from reachable_invs [OF assms] have l: "lock_inv s" and f: "flag_inv s" by simp_all
  from f have "in_progress s \<le> 1" "validationInProgress (st s) \<longleftrightarrow> in_progress s = 1"
    by (simp_all add: flag_inv_def)
  moreover have "\<forall>s'. ui s = HoldLock \<and> validationInProgress (st s) \<and> ui_step s s' \<longrightarrow>
           s' = s\<lparr>ui := MsgBox,
                   st := (st s)\<lparr>messageBoxes :=
                           messageBoxes (st s) @ [''Validation already in progress'']\<rparr>\<rparr>"
    by (auto elim: ui_step.cases)
  moreover have "\<forall>s'. ui s = MsgBox \<and> ui_step s s' \<longrightarrow> s' = s\<lparr>ui := Idle, mutex := None\<rparr>"
    by (auto elim: ui_step.cases)
  moreover have "ui s = HoldLock \<or> ui s = MsgBox \<or> ui s = Accepted \<longrightarrow> mutex s = Some UI"
    using lock_inv_ui [OF l] by (simp add: ui_holds_def)
  moreover have "\<forall>i < length (workers s). workers s ! i = Clearing \<or> workers s ! i = Cleared \<longrightarrow>
           mutex s = Some (Worker i)"
    using lock_inv_worker [OF l] by auto
  moreover have "\<forall>s'. step env s s' \<and> validationInProgress (st s') \<noteq> validationInProgress (st s) \<longrightarrow>
           mutex s \<noteq> None \<and> mutex s' = mutex s"
    using flag_change_under_lock [OF _ l] by blast
  ultimately show ?thesis by blast
qed

lemma reachable_ui: "reachable env w s \<Longrightarrow> ui_step s s' \<Longrightarrow> reachable env w s'"
  by (erule reachable.after) (simp add: step_def)

lemma reachable_second_click: "reachable env () second_click"
proof -
  let ?s0 = "initial () :: unit sys"
  let ?s1 = "?s0\<lparr>st := (st ?s0)\<lparr>filePathEdit := ''x.py'', languageCombo := ''Python''\<rparr>\<rparr>"
  let ?s2 = "?s1\<lparr>ui := WaitLock\<rparr>"
  let ?s3 = "?s2\<lparr>ui := HoldLock, mutex := Some UI\<rparr>"
  let ?s4 = "?s3\<lparr>ui := Accepted, st := (st ?s3)\<lparr>validationInProgress := True\<rparr>\<rparr>"
  let ?s5 = "?s4\<lparr>ui := Starting, mutex := None\<rparr>"
  let ?s6 = "?s5\<lparr>ui := Idle, st := (st ?s5)\<lparr>resultEdit := ''Validating...''\<rparr>,
               workers := workers ?s5 @
                 [Running (take 259 (filePathEdit (st ?s5))) (take 31 (languageCombo (st ?s5)))]\<rparr>"
  let ?s7 = "?s6\<lparr>ui := WaitLock\<rparr>"
  let ?s8 = "?s7\<lparr>ui := HoldLock, mutex := Some UI\<rparr>"
  have "reachable env () ?s0" by (rule reachable.init)
  then have "reachable env () ?s1"
    by (rule reachable_ui) (rule ui_step.edit, simp add: initial_def)
  then have "reachable env () ?s2"
    by (rule reachable_ui) (rule ui_step.click, simp add: initial_def)
  then have "reachable env () ?s3"
    by (rule reachable_ui) (rule ui_step.lock, simp_all add: initial_def)
  then have "reachable env () ?s4"
    by (rule reachable_ui) (rule ui_step.accept, simp_all add: initial_def)
  then have "reachable env () ?s5"
    by (rule reachable_ui) (rule ui_step.unlock, simp)
  then have "reachable env () ?s6"
    by (rule reachable_ui) (rule ui_step.start, simp)
  then have "reachable env () ?s7"
    by (rule reachable_ui) (rule ui_step.click, simp)
  then have "reachable env () ?s8"
    by (rule reachable_ui) (rule ui_step.lock, simp_all)
  moreover have "?s8 = second_click"
    by (simp add: second_click_def initial_def)
  ultimately show ?thesis by simp
qed

theorem single_flight_witness:
  "reachable (const_os [''x.py''] (Exited [])) () second_click
   \<and> in_progress second_click = 1
   \<and> workers second_click = [Running ''x.py'' ''Python'']
   \<and> mutex second_click = Some UI
   \<and> {s'. ui_step second_click s'} =
       {second_click\<lparr>ui := MsgBox,
          st := (st second_click)\<lparr>messageBoxes := [''Validation already in progress'']\<rparr>\<rparr>}"
proof -
  let ?env = "const_os [''x.py''] (Exited [])"
  let ?rejected = "second_click\<lparr>ui := MsgBox,
          st := (st second_click)\<lparr>messageBoxes := [''Validation already in progress'']\<rparr>\<rparr>"
  have r: "reachable ?env () second_click" by (rule reachable_second_click)
  have u: "ui second_click = HoldLock" and v: "validationInProgress (st second_click)"
    by (simp_all add: second_click_def)
  have m: "messageBoxes (st second_click) = []" by (simp add: second_click_def)
  note sf = single_flight [OF r]
  from sf v have "in_progress second_click = 1" by blast
  moreover have "workers second_click = [Running ''x.py'' ''Python'']"
    by (simp add: second_click_def)
  moreover from sf u have "mutex second_click = Some UI" by blast
  moreover have "{s'. ui_step second_click s'} = {?rejected}"
  proof (intro equalityI subsetI)
    fix s' assume "s' \<in> {s'. ui_step second_click s'}"
    then have "ui_step second_click s'" by simp
    with sf u v have "s' = second_click\<lparr>ui := MsgBox,
                   st := (st second_click)\<lparr>messageBoxes :=
                           messageBoxes (st second_click) @ [''Validation already in progress'']\<rparr>\<rparr>"
      by blast
    then show "s' \<in> {?rejected}" by (simp add: m)
  next
    fix s' assume "s' \<in> {?rejected}"
    then have "s' = ?rejected" by simp
    with ui_step.reject [OF u v] show "s' \<in> {s'. ui_step second_click s'}" by (simp add: m)
  qed
  ultimately show ?thesis using r by blast
qed

end
